theory Spec2Isabelle
  imports Complex_Main
begin

section \<open>The object store\<close>

text \<open>
  The transforms of \<^verbatim>\<open>menpo/transform/base.py\<close> are Python objects that are shared
  by reference and mutated in place, so the model keeps an explicit store. A reference
  is an index into the store; allocation appends a cell, hence a new object never has
  the reference of an old one. Every method takes the store and returns it, together
  with its result or the exception it raised (\<open>Inl\<close>).
\<close>

type_synonym ref = nat

type_synonym cls = string

datatype error = ValueError | NotImplementedError | AttributeError | TypeError | RecursionError

text \<open>
  The point-set collaborator (\<^verbatim>\<open>menpo.shape.PointCloud\<close>): the interface consumed
  here is \<^verbatim>\<open>n_dims\<close>, \<^verbatim>\<open>n_points\<close> and \<^verbatim>\<open>points\<close>. It is the Transformable
  of the model.
\<close>

record 'a pointcloud =
  n_dims :: int
  n_points :: int
  points :: 'a

text \<open>
  An instance of a concrete transform class. \<open>bases\<close> is the method resolution order
  of its class (what \<^verbatim>\<open>isinstance\<close> consults), \<open>composes_with\<close> the value of its
  abstract property \<^verbatim>\<open>composes_inplace_with\<close>, \<open>params\<close> the state owned by the
  subclass, \<open>source_attr\<close> and \<open>target_attr\<close> the attributes \<^verbatim>\<open>_source\<close> and
  \<^verbatim>\<open>_target\<close> of \<^verbatim>\<open>Alignable\<close> (\<open>None\<close> is Python's \<^verbatim>\<open>None\<close>).
\<close>

record 'p inst =
  bases :: "cls list"
  composes_with :: "cls list"
  params :: 'p
  source_attr :: "ref option"
  target_attr :: "ref option"

datatype ('p, 'a) obj =
    NDArray 'a
  | PointCloud "'a pointcloud"
  | TransformChain "ref list"
  | Instance "'p inst"

type_synonym ('p, 'a) heap = "('p, 'a) obj list"

definition lookup :: "('p, 'a) heap \<Rightarrow> ref \<Rightarrow> ('p, 'a) obj option" where
  "lookup h r = (if r < length h then Some (h ! r) else None)"

definition alloc :: "('p, 'a) heap \<Rightarrow> ('p, 'a) obj \<Rightarrow> ref \<times> ('p, 'a) heap" where
  "alloc h ob = (length h, h @ [ob])"

text \<open>\<^verbatim>\<open>type(x).__mro__\<close> and \<^verbatim>\<open>isinstance(x, classes)\<close>.\<close>

fun mro :: "('p, 'a) obj \<Rightarrow> cls list" where
  "mro (NDArray _) = [''ndarray'', ''object'']"
| "mro (PointCloud _) = [''PointCloud'', ''Transformable'', ''object'']"
| "mro (TransformChain _) = [''TransformChain'', ''ComposableTransform'', ''Transform'', ''object'']"
| "mro (Instance i) = bases i"

definition isinstance :: "('p, 'a) heap \<Rightarrow> ref \<Rightarrow> cls list \<Rightarrow> bool" where
  "isinstance h x cs =
     (case lookup h x of None \<Rightarrow> False | Some ob \<Rightarrow> list_ex (\<lambda>c. c \<in> set cs) (mro ob))"

section \<open>Transform\<close>

text \<open>
  The abstract primitive \<^verbatim>\<open>_apply\<close> of a concrete class is a parameter \<open>prim\<close>: a
  function of the instance and of the object it is given that returns the contents of
  a new array or raises. Calls are modelled without keyword arguments.

  \<^verbatim>\<open>reduce(function, sequence, initial)\<close>, with the store threaded through and the
  first exception ending the fold.
\<close>

type_synonym ('p, 'a) prim = "'p inst \<Rightarrow> ('p, 'a) obj \<Rightarrow> error + 'a"

type_synonym ('p, 'a) closure = "('p, 'a) heap \<Rightarrow> ref \<Rightarrow> (error + ref) \<times> ('p, 'a) heap"

fun reduce :: "('s \<Rightarrow> ref \<Rightarrow> 't \<Rightarrow> (error + ref) \<times> 's) \<Rightarrow> 't list \<Rightarrow> 's \<Rightarrow> ref \<Rightarrow> (error + ref) \<times> 's" where
  "reduce f [] h x = (Inr x, h)"
| "reduce f (tr # trs) h x =
     (case f h x tr of
        (Inl e, h') \<Rightarrow> (Inl e, h')
      | (Inr x', h') \<Rightarrow> reduce f trs h' x')"

text \<open>
  \<^verbatim>\<open>tr._apply(x)\<close>, dispatched on the object \<open>tr\<close>. For a chain it is
  \<^verbatim>\<open>TransformChain._apply\<close> (line 403); for an instance it is the primitive, whose
  result is a new array. The first argument is the call depth still available:
  Python ends a recursion that exceeds it with an exception, which is what applying a
  chain that contains itself does.
\<close>

fun priv_apply :: "('p, 'a) prim \<Rightarrow> nat \<Rightarrow> ('p, 'a) heap \<Rightarrow> ref \<Rightarrow> ref \<Rightarrow> (error + ref) \<times> ('p, 'a) heap" where
  "priv_apply prim 0 h tr x = (Inl RecursionError, h)"
| "priv_apply prim (Suc d) h tr x =
     (case lookup h tr of
        Some (TransformChain transforms) \<Rightarrow>
          reduce (\<lambda>h' x_i tr'. priv_apply prim d h' tr' x_i) transforms h x
      | Some (Instance i) \<Rightarrow>
          (case lookup h x of
             None \<Rightarrow> (Inl AttributeError, h)
           | Some ob \<Rightarrow>
               (case prim i ob of
                  Inl e \<Rightarrow> (Inl e, h)
                | Inr y \<Rightarrow> (Inr (length h), h @ [NDArray y])))
      | _ \<Rightarrow> (Inl AttributeError, h))"

section \<open>Deep copies\<close>

text \<open>
  \<^verbatim>\<open>copy.deepcopy\<close> copies every object reachable from its argument once (its memo)
  and rebinds the references inside the copies to the copies. \<open>refs_of\<close> are the
  references an object holds, \<open>reachable\<close> collects the objects to copy, and the
  copies are allocated behind the existing cells, the argument's copy first.
\<close>

fun refs_of :: "('p, 'a) obj \<Rightarrow> ref list" where
  "refs_of (TransformChain transforms) = transforms"
| "refs_of (Instance i) =
     (case source_attr i of None \<Rightarrow> [] | Some s \<Rightarrow> [s]) @
     (case target_attr i of None \<Rightarrow> [] | Some t \<Rightarrow> [t])"
| "refs_of (NDArray _) = []"
| "refs_of (PointCloud _) = []"

fun map_refs :: "(ref \<Rightarrow> ref) \<Rightarrow> ('p, 'a) obj \<Rightarrow> ('p, 'a) obj" where
  "map_refs f (TransformChain transforms) = TransformChain (map f transforms)"
| "map_refs f (Instance i) =
     Instance (i\<lparr>source_attr := map_option f (source_attr i),
                target_attr := map_option f (target_attr i)\<rparr>)"
| "map_refs f (NDArray a) = NDArray a"
| "map_refs f (PointCloud pc) = PointCloud pc"

function reachable :: "('p, 'a) heap \<Rightarrow> ref list \<Rightarrow> ref list \<Rightarrow> ref list" where
  "reachable h [] seen = seen"
| "reachable h (r # todo) seen =
     (if r \<in> set seen \<or> length h \<le> r then reachable h todo seen
      else reachable h (refs_of (h ! r) @ todo) (seen @ [r]))"
  by pat_completeness auto
termination
  apply (relation "measures [\<lambda>(h, todo, seen). card ({..<length h} - set seen),
                             \<lambda>(h, todo, seen). length todo]")
  subgoal by simp
  subgoal by simp
  subgoal for h r todo seen
  proof -
    assume "\<not> (r \<in> set seen \<or> length h \<le> r)"
    then have "r \<in> {..<length h} - set seen"
      by simp
    then have "card ({..<length h} - set seen - {r}) < card ({..<length h} - set seen)"
      by (intro card_Diff1_less) auto
    moreover have "{..<length h} - set (seen @ [r]) = {..<length h} - set seen - {r}"
      by auto
    ultimately show ?thesis
      by simp
  qed
  done

definition deepcopy :: "('p, 'a) heap \<Rightarrow> ref \<Rightarrow> ref \<times> ('p, 'a) heap" where
  "deepcopy h x =
     (let olds = reachable h [x] [];
          memo = map_of (zip olds [length h ..< length h + length olds]);
          copy = (\<lambda>r. case memo r of None \<Rightarrow> r | Some c \<Rightarrow> c)
      in (copy x, h @ map (\<lambda>r. map_refs copy (h ! r)) olds))"

section \<open>Transformable\<close>

text \<open>
  \<^verbatim>\<open>_transform_inplace\<close> is abstract: the parameter \<open>tih\<close> is given the closure, the
  store and the receiver. \<^verbatim>\<open>Transformable._transform\<close> (lines 849-867) is the default
  non-destructive wrapper.
\<close>

type_synonym ('p, 'a) transform_inplace_hook =
  "('p, 'a) closure \<Rightarrow> ('p, 'a) heap \<Rightarrow> ref \<Rightarrow> (error + unit) \<times> ('p, 'a) heap"

definition Transformable_priv_transform ::
  "('p, 'a) transform_inplace_hook \<Rightarrow> ('p, 'a) closure \<Rightarrow> ('p, 'a) heap \<Rightarrow> ref \<Rightarrow> (error + ref) \<times> ('p, 'a) heap" where
  "Transformable_priv_transform tih transform h self =
     (case deepcopy h self of
        (copy_of_self, h1) \<Rightarrow>
          (case tih transform h1 copy_of_self of
             (Inl e, h2) \<Rightarrow> (Inl e, h2)
           | (Inr _, h2) \<Rightarrow> (Inr copy_of_self, h2)))"

text \<open>
  The attribute lookups \<^verbatim>\<open>x._transform\<close> and \<^verbatim>\<open>x._transform_inplace\<close>: only a
  Transformable has them, on any other object the lookup raises \<^verbatim>\<open>AttributeError\<close>.
\<close>

definition call_priv_transform ::
  "('p, 'a) transform_inplace_hook \<Rightarrow> ('p, 'a) closure \<Rightarrow> ('p, 'a) heap \<Rightarrow> ref \<Rightarrow> (error + ref) \<times> ('p, 'a) heap" where
  "call_priv_transform tih transform h x =
     (case lookup h x of
        Some (PointCloud _) \<Rightarrow> Transformable_priv_transform tih transform h x
      | _ \<Rightarrow> (Inl AttributeError, h))"

definition call_priv_transform_inplace ::
  "('p, 'a) transform_inplace_hook \<Rightarrow> ('p, 'a) closure \<Rightarrow> ('p, 'a) heap \<Rightarrow> ref \<Rightarrow> (error + unit) \<times> ('p, 'a) heap" where
  "call_priv_transform_inplace tih transform h x =
     (case lookup h x of
        Some (PointCloud _) \<Rightarrow> tih transform h x
      | _ \<Rightarrow> (Inl AttributeError, h))"

section \<open>Transform.apply and Transform.apply\_inplace\<close>

text \<open>
  \<^verbatim>\<open>x[...] = value\<close> on a numpy array is numpy's assignment: it broadcasts \<open>value\<close>
  to the shape of \<open>x\<close> and casts it to the element type of \<open>x\<close>, or raises when the
  shapes cannot be broadcast. It is the parameter \<open>np_setitem\<close>, which maps the
  contents of \<open>x\<close> and of \<open>value\<close> to the contents of \<open>x\<close> afterwards or to the
  exception. An object that is no array does not support item assignment.
\<close>

definition setitem_ellipsis ::
  "('a \<Rightarrow> 'a \<Rightarrow> error + 'a) \<Rightarrow> ('p, 'a) heap \<Rightarrow> ref \<Rightarrow> ref \<Rightarrow> (error + unit) \<times> ('p, 'a) heap" where
  "setitem_ellipsis np_setitem h x v =
     (case lookup h x of
        Some (NDArray a) \<Rightarrow>
          (case lookup h v of
             Some (NDArray w) \<Rightarrow>
               (case np_setitem a w of
                  Inl e \<Rightarrow> (Inl e, h)
                | Inr a' \<Rightarrow> (Inr (), h[x := NDArray a']))
           | _ \<Rightarrow> (Inl ValueError, h))
      | _ \<Rightarrow> (Inl TypeError, h))"

text \<open>Lines 56-91 and 93-127. The \<^verbatim>\<open>except AttributeError\<close> clause is the second case.\<close>

definition Transform_apply_inplace ::
  "('a \<Rightarrow> 'a \<Rightarrow> error + 'a) \<Rightarrow> ('p, 'a) prim \<Rightarrow> ('p, 'a) transform_inplace_hook \<Rightarrow> nat
     \<Rightarrow> ('p, 'a) heap \<Rightarrow> ref \<Rightarrow> ref \<Rightarrow> (error + unit) \<times> ('p, 'a) heap" where
  "Transform_apply_inplace np_setitem prim tih d h self x =
     (let transform = (\<lambda>h' x'. priv_apply prim d h' self x') in
      case call_priv_transform_inplace tih transform h x of
        (Inl AttributeError, h1) \<Rightarrow>
          (case priv_apply prim d h1 self x of
             (Inl e, h2) \<Rightarrow> (Inl e, h2)
           | (Inr v, h2) \<Rightarrow> setitem_ellipsis np_setitem h2 x v)
      | (res, h1) \<Rightarrow> (res, h1))"

definition Transform_apply ::
  "('p, 'a) prim \<Rightarrow> ('p, 'a) transform_inplace_hook \<Rightarrow> nat \<Rightarrow> ('p, 'a) heap \<Rightarrow> ref \<Rightarrow> ref \<Rightarrow> (error + ref) \<times> ('p, 'a) heap" where
  "Transform_apply prim tih d h self x =
     (let transform = (\<lambda>h' x'. priv_apply prim d h' self x') in
      case call_priv_transform tih transform h x of
        (Inl AttributeError, h1) \<Rightarrow> priv_apply prim d h1 self x
      | (res, h1) \<Rightarrow> (res, h1))"

text \<open>
  The value that \<^verbatim>\<open>==\<close> compares in the contracts on \<^verbatim>\<open>apply\<close>: the exception, or
  the contents of the returned object in the store the call left.
\<close>

definition returned_value :: "(error + ref) \<times> ('p, 'a) heap \<Rightarrow> error + ('p, 'a) obj option" where
  "returned_value r = (case r of (Inl e, h) \<Rightarrow> Inl e | (Inr x, h) \<Rightarrow> Inr (lookup h x))"

section \<open>Chain-based composition\<close>

text \<open>
  \<^verbatim>\<open>TransformChain.__init__\<close> (lines 386-388) builds a new chain object around the list
  it is given; \<^verbatim>\<open>Transform.compose_before\<close> and \<^verbatim>\<open>Transform.compose_after\<close> (lines
  129-168) call it with a list literal. The list is kept in the chain's cell: a chain is
  built here from a list literal, which nothing but the chain references.
\<close>

definition TransformChain_init :: "('p, 'a) heap \<Rightarrow> ref list \<Rightarrow> ref \<times> ('p, 'a) heap" where
  "TransformChain_init h transforms = alloc h (TransformChain transforms)"

definition Transform_compose_before :: "('p, 'a) heap \<Rightarrow> ref \<Rightarrow> ref \<Rightarrow> ref \<times> ('p, 'a) heap" where
  "Transform_compose_before h self transform = TransformChain_init h [self, transform]"

definition Transform_compose_after :: "('p, 'a) heap \<Rightarrow> ref \<Rightarrow> ref \<Rightarrow> ref \<times> ('p, 'a) heap" where
  "Transform_compose_after h self transform = TransformChain_init h [transform, self]"

section \<open>ComposableTransform\<close>

text \<open>
  \<^verbatim>\<open>self.composes_inplace_with\<close>: \<^verbatim>\<open>Transform\<close> for a chain (lines 382-384), the
  value of the abstract property for an instance of a concrete class.
\<close>

fun composes_inplace_with :: "('p, 'a) obj \<Rightarrow> error + cls list" where
  "composes_inplace_with (TransformChain _) = Inr [''Transform'']"
| "composes_inplace_with (Instance i) = Inr (composes_with i)"
| "composes_inplace_with (NDArray _) = Inl AttributeError"
| "composes_inplace_with (PointCloud _) = Inl AttributeError"

text \<open>
  \<^verbatim>\<open>_compose_before_inplace\<close> and \<^verbatim>\<open>_compose_after_inplace\<close> are abstract in
  \<^verbatim>\<open>ComposableTransform\<close>. For a concrete class they are the parameters \<open>cbi\<close> and
  \<open>cai\<close>, which compute the receiver's new parameters from the receiver and the object
  it is composed with, or raise; this is their documented contract (the receiver is
  altered, the argument is left unchanged). For a chain they are lines 376-380.
\<close>

type_synonym ('p, 'a) compose_hook = "'p inst \<Rightarrow> ('p, 'a) obj \<Rightarrow> error + 'p"

definition priv_compose_before_inplace ::
  "('p, 'a) compose_hook \<Rightarrow> ('p, 'a) heap \<Rightarrow> ref \<Rightarrow> ref \<Rightarrow> (error + unit) \<times> ('p, 'a) heap" where
  "priv_compose_before_inplace cbi h self transform =
     (case lookup h self of
        Some (TransformChain transforms) \<Rightarrow>
          (Inr (), h[self := TransformChain (transforms @ [transform])])
      | Some (Instance i) \<Rightarrow>
          (case lookup h transform of
             None \<Rightarrow> (Inl AttributeError, h)
           | Some t \<Rightarrow>
               (case cbi i t of
                  Inl e \<Rightarrow> (Inl e, h)
                | Inr p \<Rightarrow> (Inr (), h[self := Instance (i\<lparr>params := p\<rparr>)])))
      | _ \<Rightarrow> (Inl AttributeError, h))"

definition priv_compose_after_inplace ::
  "('p, 'a) compose_hook \<Rightarrow> ('p, 'a) heap \<Rightarrow> ref \<Rightarrow> ref \<Rightarrow> (error + unit) \<times> ('p, 'a) heap" where
  "priv_compose_after_inplace cai h self transform =
     (case lookup h self of
        Some (TransformChain transforms) \<Rightarrow>
          (Inr (), h[self := TransformChain (transform # transforms)])
      | Some (Instance i) \<Rightarrow>
          (case lookup h transform of
             None \<Rightarrow> (Inl AttributeError, h)
           | Some t \<Rightarrow>
               (case cai i t of
                  Inl e \<Rightarrow> (Inl e, h)
                | Inr p \<Rightarrow> (Inr (), h[self := Instance (i\<lparr>params := p\<rparr>)])))
      | _ \<Rightarrow> (Inl AttributeError, h))"

text \<open>Lines 275-336: the in-place compositions behind their \<^verbatim>\<open>isinstance\<close> gate.\<close>

definition ComposableTransform_compose_before_inplace ::
  "('p, 'a) compose_hook \<Rightarrow> ('p, 'a) heap \<Rightarrow> ref \<Rightarrow> ref \<Rightarrow> (error + unit) \<times> ('p, 'a) heap" where
  "ComposableTransform_compose_before_inplace cbi h self transform =
     (case lookup h self of
        None \<Rightarrow> (Inl AttributeError, h)
      | Some ob \<Rightarrow>
          (case composes_inplace_with ob of
             Inl e \<Rightarrow> (Inl e, h)
           | Inr cs \<Rightarrow>
               if isinstance h transform cs
               then priv_compose_before_inplace cbi h self transform
               else (Inl ValueError, h)))"

definition ComposableTransform_compose_after_inplace ::
  "('p, 'a) compose_hook \<Rightarrow> ('p, 'a) heap \<Rightarrow> ref \<Rightarrow> ref \<Rightarrow> (error + unit) \<times> ('p, 'a) heap" where
  "ComposableTransform_compose_after_inplace cai h self transform =
     (case lookup h self of
        None \<Rightarrow> (Inl AttributeError, h)
      | Some ob \<Rightarrow>
          (case composes_inplace_with ob of
             Inl e \<Rightarrow> (Inl e, h)
           | Inr cs \<Rightarrow>
               if isinstance h transform cs
               then priv_compose_after_inplace cai h self transform
               else (Inl ValueError, h)))"

text \<open>Lines 338-348: deep copy, then the in-place operation on the copy.\<close>

definition ComposableTransform_priv_compose_before ::
  "('p, 'a) compose_hook \<Rightarrow> ('p, 'a) heap \<Rightarrow> ref \<Rightarrow> ref \<Rightarrow> (error + ref) \<times> ('p, 'a) heap" where
  "ComposableTransform_priv_compose_before cbi h self transform =
     (case deepcopy h self of
        (new_transform, h1) \<Rightarrow>
          (case priv_compose_before_inplace cbi h1 new_transform transform of
             (Inl e, h2) \<Rightarrow> (Inl e, h2)
           | (Inr _, h2) \<Rightarrow> (Inr new_transform, h2)))"

definition ComposableTransform_priv_compose_after ::
  "('p, 'a) compose_hook \<Rightarrow> ('p, 'a) heap \<Rightarrow> ref \<Rightarrow> ref \<Rightarrow> (error + ref) \<times> ('p, 'a) heap" where
  "ComposableTransform_priv_compose_after cai h self transform =
     (case deepcopy h self of
        (new_transform, h1) \<Rightarrow>
          (case priv_compose_after_inplace cai h1 new_transform transform of
             (Inl e, h2) \<Rightarrow> (Inl e, h2)
           | (Inr _, h2) \<Rightarrow> (Inr new_transform, h2)))"

text \<open>Lines 226-273: native composition, or the chain of \<^verbatim>\<open>Transform\<close>.\<close>

definition ComposableTransform_compose_before ::
  "('p, 'a) compose_hook \<Rightarrow> ('p, 'a) heap \<Rightarrow> ref \<Rightarrow> ref \<Rightarrow> (error + ref) \<times> ('p, 'a) heap" where
  "ComposableTransform_compose_before cbi h self transform =
     (case lookup h self of
        None \<Rightarrow> (Inl AttributeError, h)
      | Some ob \<Rightarrow>
          (case composes_inplace_with ob of
             Inl e \<Rightarrow> (Inl e, h)
           | Inr cs \<Rightarrow>
               if isinstance h transform cs
               then ComposableTransform_priv_compose_before cbi h self transform
               else (case Transform_compose_before h self transform of
                       (chain, h1) \<Rightarrow> (Inr chain, h1))))"

definition ComposableTransform_compose_after ::
  "('p, 'a) compose_hook \<Rightarrow> ('p, 'a) heap \<Rightarrow> ref \<Rightarrow> ref \<Rightarrow> (error + ref) \<times> ('p, 'a) heap" where
  "ComposableTransform_compose_after cai h self transform =
     (case lookup h self of
        None \<Rightarrow> (Inl AttributeError, h)
      | Some ob \<Rightarrow>
          (case composes_inplace_with ob of
             Inl e \<Rightarrow> (Inl e, h)
           | Inr cs \<Rightarrow>
               if isinstance h transform cs
               then ComposableTransform_priv_compose_after cai h self transform
               else (case Transform_compose_after h self transform of
                       (chain, h1) \<Rightarrow> (Inr chain, h1))))"

section \<open>VComposableTransform\<close>

text \<open>
  The Vectorizable capability (\<^verbatim>\<open>menpo.base.Vectorizable\<close>) is consumed through three
  parameters: \<open>as_vector\<close> encodes the parameters of an instance, \<open>update_from_vector\<close>
  gives the receiver's parameters after \<^verbatim>\<open>self.update_from_vector(vector)\<close>, and
  \<open>from_vector\<close> gives the new instance that \<^verbatim>\<open>self.from_vector(vector)\<close> builds.
  Lines 416-438 and 464-487.
\<close>

definition VComposableTransform_compose_before_from_vector_inplace ::
  "('p, 'a) compose_hook \<Rightarrow> ('p inst \<Rightarrow> 'v \<Rightarrow> 'p inst) \<Rightarrow> ('p, 'a) heap \<Rightarrow> ref \<Rightarrow> 'v
     \<Rightarrow> (error + unit) \<times> ('p, 'a) heap" where
  "VComposableTransform_compose_before_from_vector_inplace cbi from_vector h self vector =
     (case lookup h self of
        Some (Instance i) \<Rightarrow>
          (case alloc h (Instance (from_vector i vector)) of
             (b, h1) \<Rightarrow> ComposableTransform_compose_before_inplace cbi h1 self b)
      | _ \<Rightarrow> (Inl AttributeError, h))"

definition VComposableTransform_priv_compose_after_inplace ::
  "('p, 'a) compose_hook \<Rightarrow> ('p inst \<Rightarrow> 'v) \<Rightarrow> ('p inst \<Rightarrow> 'v \<Rightarrow> 'p) \<Rightarrow> ('p inst \<Rightarrow> 'v \<Rightarrow> 'p inst)
     \<Rightarrow> ('p, 'a) heap \<Rightarrow> ref \<Rightarrow> ref \<Rightarrow> (error + unit) \<times> ('p, 'a) heap" where
  "VComposableTransform_priv_compose_after_inplace cbi as_vector update_from_vector from_vector h self transform =
     (case lookup h self of
        Some (Instance i) \<Rightarrow>
          (let self_vector = as_vector i in
           case lookup h transform of
             Some (Instance t) \<Rightarrow>
               (let h1 = h[self := Instance (i\<lparr>params := update_from_vector i (as_vector t)\<rparr>)] in
                VComposableTransform_compose_before_from_vector_inplace cbi from_vector h1 self self_vector)
           | _ \<Rightarrow> (Inl AttributeError, h))
      | _ \<Rightarrow> (Inl AttributeError, h))"

section \<open>Alignable\<close>

text \<open>
  The attributes \<^verbatim>\<open>n_dims\<close>, \<^verbatim>\<open>n_points\<close> and \<^verbatim>\<open>points\<close> of a source or target.
  The argument is a reference or \<^verbatim>\<open>None\<close>; \<^verbatim>\<open>None\<close> has no attributes. The
  documented sources and targets are point sets, and only they carry the three
  attributes in the model.
\<close>

definition attr_n_dims :: "('p, 'a) heap \<Rightarrow> ref option \<Rightarrow> error + int" where
  "attr_n_dims h x =
     (case x of
        None \<Rightarrow> Inl AttributeError
      | Some r \<Rightarrow> (case lookup h r of Some (PointCloud pc) \<Rightarrow> Inr (n_dims pc) | _ \<Rightarrow> Inl AttributeError))"

definition attr_n_points :: "('p, 'a) heap \<Rightarrow> ref option \<Rightarrow> error + int" where
  "attr_n_points h x =
     (case x of
        None \<Rightarrow> Inl AttributeError
      | Some r \<Rightarrow> (case lookup h r of Some (PointCloud pc) \<Rightarrow> Inr (n_points pc) | _ \<Rightarrow> Inl AttributeError))"

definition attr_points :: "('p, 'a) heap \<Rightarrow> ref option \<Rightarrow> error + 'a" where
  "attr_points h x =
     (case x of
        None \<Rightarrow> Inl AttributeError
      | Some r \<Rightarrow> (case lookup h r of Some (PointCloud pc) \<Rightarrow> Inr (points pc) | _ \<Rightarrow> Inl AttributeError))"

text \<open>Lines 657-666.\<close>

definition Alignable_priv_verify_source_and_target ::
  "('p, 'a) heap \<Rightarrow> ref option \<Rightarrow> ref option \<Rightarrow> error + bool" where
  "Alignable_priv_verify_source_and_target h source target =
     (case attr_n_dims h source of
        Inl e \<Rightarrow> Inl e
      | Inr sd \<Rightarrow>
          (case attr_n_dims h target of
             Inl e \<Rightarrow> Inl e
           | Inr td \<Rightarrow>
               if sd \<noteq> td then Inl ValueError
               else (case attr_n_points h source of
                       Inl e \<Rightarrow> Inl e
                     | Inr sp \<Rightarrow>
                         (case attr_n_points h target of
                            Inl e \<Rightarrow> Inl e
                          | Inr tp \<Rightarrow> if sp \<noteq> tp then Inl ValueError else Inr True))))"

text \<open>
  Lines 545-567. \<^verbatim>\<open>cls._align\<close> is supplied by the concrete class: the parameter
  \<open>priv_align\<close>.
\<close>

definition Alignable_align ::
  "('c \<Rightarrow> ('p, 'a) heap \<Rightarrow> ref option \<Rightarrow> ref option \<Rightarrow> (error + 'r) \<times> ('p, 'a) heap)
     \<Rightarrow> 'c \<Rightarrow> ('p, 'a) heap \<Rightarrow> ref option \<Rightarrow> ref option \<Rightarrow> (error + 'r) \<times> ('p, 'a) heap" where
  "Alignable_align priv_align cls h source target =
     (case Alignable_priv_verify_source_and_target h source target of
        Inl e \<Rightarrow> (Inl e, h)
      | Inr _ \<Rightarrow> priv_align cls h source target)"

text \<open>Lines 569-579: the properties \<^verbatim>\<open>is_alignment_transform\<close>, \<^verbatim>\<open>source\<close>, \<^verbatim>\<open>target\<close>.\<close>

definition Alignable_source :: "'p inst \<Rightarrow> ref option" where
  "Alignable_source i = source_attr i"

definition Alignable_target :: "'p inst \<Rightarrow> ref option" where
  "Alignable_target i = target_attr i"

definition is_alignment_transform :: "'p inst \<Rightarrow> bool" where
  "is_alignment_transform i = (Alignable_source i \<noteq> None \<and> Alignable_target i \<noteq> None)"

text \<open>
  Lines 581-601, the setter of the property \<^verbatim>\<open>target\<close>. The abstract
  \<^verbatim>\<open>_target_setter\<close> is the parameter \<open>priv_target_setter\<close>.
\<close>

definition Alignable_target_set ::
  "(('p, 'a) heap \<Rightarrow> ref \<Rightarrow> ref option \<Rightarrow> (error + unit) \<times> ('p, 'a) heap)
     \<Rightarrow> ('p, 'a) heap \<Rightarrow> ref \<Rightarrow> ref option \<Rightarrow> (error + unit) \<times> ('p, 'a) heap" where
  "Alignable_target_set priv_target_setter h self val =
     (case lookup h self of
        Some (Instance i) \<Rightarrow>
          if \<not> is_alignment_transform i then (Inl NotImplementedError, h)
          else (case attr_n_dims h val of
                  Inl e \<Rightarrow> (Inl e, h)
                | Inr vd \<Rightarrow>
                    (case attr_n_dims h (Alignable_target i) of
                       Inl e \<Rightarrow> (Inl e, h)
                     | Inr td \<Rightarrow>
                         if vd \<noteq> td then (Inl ValueError, h)
                         else (case attr_n_points h val of
                                 Inl e \<Rightarrow> (Inl e, h)
                               | Inr vp \<Rightarrow>
                                   (case attr_n_points h (Alignable_target i) of
                                      Inl e \<Rightarrow> (Inl e, h)
                                    | Inr tp \<Rightarrow>
                                        if vp \<noteq> tp then (Inl ValueError, h)
                                        else priv_target_setter h self val))))
      | _ \<Rightarrow> (Inl AttributeError, h))"

text \<open>Lines 603-608.\<close>

definition Alignable_aligned_source ::
  "('p, 'a) prim \<Rightarrow> ('p, 'a) transform_inplace_hook \<Rightarrow> nat \<Rightarrow> ('p, 'a) heap \<Rightarrow> ref
     \<Rightarrow> (error + ref) \<times> ('p, 'a) heap" where
  "Alignable_aligned_source prim tih d h self =
     (case lookup h self of
        Some (Instance i) \<Rightarrow>
          if \<not> is_alignment_transform i then (Inl ValueError, h)
          else (case Alignable_source i of
                  Some source \<Rightarrow> Transform_apply prim tih d h self source
                | None \<Rightarrow> (Inl ValueError, h))
      | _ \<Rightarrow> (Inl AttributeError, h))"

text \<open>
  Lines 610-618. numpy's subtraction and \<^verbatim>\<open>np.linalg.norm\<close> are the parameters
  \<open>np_subtract\<close> and \<open>np_linalg_norm\<close>; \<^verbatim>\<open>self.target.points\<close> is evaluated before
  \<^verbatim>\<open>self.aligned_source\<close>.
\<close>

definition Alignable_alignment_error ::
  "('p, 'a) prim \<Rightarrow> ('p, 'a) transform_inplace_hook \<Rightarrow> ('a \<Rightarrow> 'a \<Rightarrow> error + 'a) \<Rightarrow> ('a \<Rightarrow> 'n)
     \<Rightarrow> nat \<Rightarrow> ('p, 'a) heap \<Rightarrow> ref \<Rightarrow> (error + 'n) \<times> ('p, 'a) heap" where
  "Alignable_alignment_error prim tih np_subtract np_linalg_norm d h self =
     (case lookup h self of
        Some (Instance i) \<Rightarrow>
          (case attr_points h (Alignable_target i) of
             Inl e \<Rightarrow> (Inl e, h)
           | Inr target_points \<Rightarrow>
               (case Alignable_aligned_source prim tih d h self of
                  (Inl e, h1) \<Rightarrow> (Inl e, h1)
                | (Inr aligned, h1) \<Rightarrow>
                    (case attr_points h1 (Some aligned) of
                       Inl e \<Rightarrow> (Inl e, h1)
                     | Inr aligned_points \<Rightarrow>
                         (case np_subtract target_points aligned_points of
                            Inl e \<Rightarrow> (Inl e, h1)
                          | Inr difference \<Rightarrow> (Inr (np_linalg_norm difference), h1)))))
      | _ \<Rightarrow> (Inl AttributeError, h))"

section \<open>PureAlignment\<close>

text \<open>
  Lines 686-690. \<^verbatim>\<open>Alignable.__init__\<close> (lines 503-505) sets both attributes to
  \<^verbatim>\<open>None\<close> first.
\<close>

definition Alignable_init :: "('p, 'a) heap \<Rightarrow> ref \<Rightarrow> (error + unit) \<times> ('p, 'a) heap" where
  "Alignable_init h self =
     (case lookup h self of
        Some (Instance i) \<Rightarrow> (Inr (), h[self := Instance (i\<lparr>source_attr := None, target_attr := None\<rparr>)])
      | _ \<Rightarrow> (Inl AttributeError, h))"

definition PureAlignment_init ::
  "('p, 'a) heap \<Rightarrow> ref \<Rightarrow> ref option \<Rightarrow> ref option \<Rightarrow> (error + unit) \<times> ('p, 'a) heap" where
  "PureAlignment_init h self source target =
     (case Alignable_init h self of
        (Inl e, h1) \<Rightarrow> (Inl e, h1)
      | (Inr _, h1) \<Rightarrow>
          (case Alignable_priv_verify_source_and_target h1 source target of
             Inl e \<Rightarrow> (Inl e, h1)
           | Inr ok \<Rightarrow>
               if ok
               then (case lookup h1 self of
                       Some (Instance i) \<Rightarrow>
                         (Inr (), h1[self := Instance (i\<lparr>source_attr := source, target_attr := target\<rparr>)])
                     | _ \<Rightarrow> (Inl AttributeError, h1))
               else (Inr (), h1)))"

text \<open>
  \<^verbatim>\<open>cls(source, target)\<close> for a class that inherits the constructor of
  \<^verbatim>\<open>PureAlignment\<close>: a new instance of the class is allocated and initialised. The
  class is given by \<open>cls\<close>, the instance that \<^verbatim>\<open>cls.__new__\<close> creates. When the
  constructor raises, no reference to the new object is returned.
\<close>

definition PureAlignment_new ::
  "'p inst \<Rightarrow> ('p, 'a) heap \<Rightarrow> ref option \<Rightarrow> ref option \<Rightarrow> (error + ref) \<times> ('p, 'a) heap" where
  "PureAlignment_new cls h source target =
     (case alloc h (Instance cls) of
        (self, h1) \<Rightarrow>
          (case PureAlignment_init h1 self source target of
             (Inl e, h2) \<Rightarrow> (Inl e, h2)
           | (Inr _, h2) \<Rightarrow> (Inr self, h2)))"

text \<open>Lines 718-741.\<close>

definition PureAlignment_align ::
  "'p inst \<Rightarrow> ('p, 'a) heap \<Rightarrow> ref option \<Rightarrow> ref option \<Rightarrow> (error + ref) \<times> ('p, 'a) heap" where
  "PureAlignment_align cls h source target = PureAlignment_new cls h source target"

section \<open>A concrete class for the examples\<close>

text \<open>
  A translation of flattened coordinates: its primitive adds the parameter to every
  coordinate, and composing two translations adds their parameters. \<open>no_hook\<close> is a
  \<^verbatim>\<open>_transform_inplace\<close> that does nothing. \<open>AlignmentTranslation\<close> is a class
  derived from \<^verbatim>\<open>PureAlignment\<close> with the same primitive; \<open>example_align\<close> and
  \<open>example_target_setter\<close> stand for its \<^verbatim>\<open>_align\<close> and \<^verbatim>\<open>_target_setter\<close>.
  \<open>PointCloud_transform_inplace\<close> is the hook of a point set: it hands its points to the
  transform and keeps the result. \<open>example_subtract\<close> and \<open>frobenius_norm\<close> are the
  elementwise difference and the Frobenius norm of integer coordinates. The vector of a
  translation is its parameter. \<open>example_setitem\<close> is numpy's assignment between
  one-dimensional integer arrays: a value of the array's length is stored, a value of
  length one is broadcast, any other length raises. \<open>Embedding\<close> is a class whose
  primitive appends its parameter as one more coordinate.
\<close>

definition Translation_prim :: "(int, int list) prim" where
  "Translation_prim i ob =
     (case ob of NDArray xs \<Rightarrow> Inr (map (\<lambda>v. v + params i) xs) | _ \<Rightarrow> Inl TypeError)"

definition Translation :: "int \<Rightarrow> int inst" where
  "Translation k = \<lparr>bases = [''Translation'', ''ComposableTransform'', ''Transform'', ''object''],
     composes_with = [''Translation''], params = k, source_attr = None, target_attr = None\<rparr>"

definition no_hook :: "(int, int list) transform_inplace_hook" where
  "no_hook transform h x = (Inr (), h)"

definition example_store :: "(int, int list) heap" where
  "example_store = [NDArray [1, 2], Instance (Translation 10), Instance (Translation 5)]"

definition Translation_compose :: "(int, int list) compose_hook" where
  "Translation_compose i ob =
     (case ob of Instance t \<Rightarrow> Inr (params i + params t) | _ \<Rightarrow> Inl TypeError)"

definition AlignmentTranslation :: "int \<Rightarrow> int inst" where
  "AlignmentTranslation k = \<lparr>bases = [''AlignmentTranslation'', ''PureAlignment'', ''Alignable'',
       ''Transform'', ''object''],
     composes_with = [], params = k, source_attr = None, target_attr = None\<rparr>"

definition alignment_store :: "(int, int list) heap" where
  "alignment_store =
     [PointCloud \<lparr>n_dims = 2, n_points = 2, points = [0, 0, 1, 1]\<rparr>,
      PointCloud \<lparr>n_dims = 2, n_points = 2, points = [1, 1, 2, 5]\<rparr>,
      PointCloud \<lparr>n_dims = 3, n_points = 2, points = [0, 0, 0, 1, 1, 1]\<rparr>,
      Instance ((AlignmentTranslation 1)\<lparr>source_attr := Some 0, target_attr := Some 1\<rparr>),
      Instance (AlignmentTranslation 1)]"

definition example_align ::
  "cls \<Rightarrow> (int, int list) heap \<Rightarrow> ref option \<Rightarrow> ref option \<Rightarrow> (error + ref) \<times> (int, int list) heap" where
  "example_align c h source target =
     (Inr (length h), h @ [Instance ((AlignmentTranslation 1)\<lparr>source_attr := source, target_attr := target\<rparr>)])"

definition example_target_setter ::
  "(int, int list) heap \<Rightarrow> ref \<Rightarrow> ref option \<Rightarrow> (error + unit) \<times> (int, int list) heap" where
  "example_target_setter h self new_target =
     (case lookup h self of
        Some (Instance i) \<Rightarrow> (Inr (), h[self := Instance (i\<lparr>target_attr := new_target\<rparr>)])
      | _ \<Rightarrow> (Inl AttributeError, h))"

definition PointCloud_transform_inplace :: "(int, int list) transform_inplace_hook" where
  "PointCloud_transform_inplace transform h self =
     (case lookup h self of
        Some (PointCloud pc) \<Rightarrow>
          (case alloc h (NDArray (points pc)) of
             (arr, h1) \<Rightarrow>
               (case transform h1 arr of
                  (Inl e, h2) \<Rightarrow> (Inl e, h2)
                | (Inr y, h2) \<Rightarrow>
                    (case lookup h2 y of
                       Some (NDArray v) \<Rightarrow> (Inr (), h2[self := PointCloud (pc\<lparr>points := v\<rparr>)])
                     | _ \<Rightarrow> (Inl TypeError, h2))))
      | _ \<Rightarrow> (Inl AttributeError, h))"

definition example_subtract :: "int list \<Rightarrow> int list \<Rightarrow> error + int list" where
  "example_subtract xs ys =
     (if length xs = length ys then Inr (map2 (\<lambda>x y. x - y) xs ys) else Inl ValueError)"

definition frobenius_norm :: "int list \<Rightarrow> real" where
  "frobenius_norm xs = sqrt (real_of_int (sum_list (map (\<lambda>x. x * x) xs)))"

definition AlignmentTranslation_prim :: "(int, int list) prim" where
  "AlignmentTranslation_prim i ob =
     (case ob of NDArray xs \<Rightarrow> Inr (map (\<lambda>v. v + params i) xs) | _ \<Rightarrow> Inl TypeError)"

definition Translation_as_vector :: "int inst \<Rightarrow> int" where
  "Translation_as_vector i = params i"

definition Translation_update_from_vector :: "int inst \<Rightarrow> int \<Rightarrow> int" where
  "Translation_update_from_vector i vector = vector"

definition Translation_from_vector :: "int inst \<Rightarrow> int \<Rightarrow> int inst" where
  "Translation_from_vector i vector = i\<lparr>params := vector\<rparr>"

definition example_setitem :: "int list \<Rightarrow> int list \<Rightarrow> error + int list" where
  "example_setitem x val =
     (if length val = length x then Inr val
      else (case val of [c] \<Rightarrow> Inr (replicate (length x) c) | _ \<Rightarrow> Inl ValueError))"

definition Embedding :: "int \<Rightarrow> int inst" where
  "Embedding k = \<lparr>bases = [''Embedding'', ''Transform'', ''object''],
     composes_with = [], params = k, source_attr = None, target_attr = None\<rparr>"

definition Embedding_prim :: "(int, int list) prim" where
  "Embedding_prim i ob =
     (case ob of NDArray xs \<Rightarrow> Inr (xs @ [params i]) | _ \<Rightarrow> Inl TypeError)"

definition embedding_store :: "(int, int list) heap" where
  "embedding_store = [NDArray [1, 2], Instance (Embedding 0)]"

definition chain_store :: "(int, int list) heap" where
  "chain_store = example_store @ [TransformChain [1, 2]]"

section \<open>Facts about the store and the primitive mapping\<close>

lemma lookup_append_old: "lookup h r = Some ob \<Longrightarrow> lookup (h @ ext) r = Some ob"
  by (auto simp: lookup_def nth_append split: if_splits)

lemma lookup_alloc_new: "lookup (h @ [ob]) (length h) = Some ob"
  by (simp add: lookup_def)

lemma reduce_invariant:
  "\<forall>h x t y h'. t \<in> set ts \<longrightarrow> f h x t = (Inr y, h') \<longrightarrow> P h x \<longrightarrow> P h' y \<Longrightarrow>
   reduce f ts h x = (Inr y, h') \<Longrightarrow> P h x \<Longrightarrow> P h' y"
proof (induction ts arbitrary: h x)
  case Nil
  then show ?case by simp
next
  case (Cons t ts)
  obtain r h1 where f: "f h x t = (r, h1)" by (cases "f h x t")
  show ?case
  proof (cases r)
    case (Inl e)
    with f Cons.prems(2) show ?thesis by simp
  next
    case (Inr x1)
    with f Cons.prems(2) have red: "reduce f ts h1 x1 = (Inr y, h')" by simp
    have "P h1 x1" using Cons.prems(1,3) f Inr by auto
    moreover have "\<forall>h x t y h'. t \<in> set ts \<longrightarrow> f h x t = (Inr y, h') \<longrightarrow> P h x \<longrightarrow> P h' y"
      using Cons.prems(1) by auto
    ultimately show ?thesis
      using Cons.IH red by blast
  qed
qed

lemma reduce_extends:
  "\<forall>h x t r h'. t \<in> set ts \<longrightarrow> f h x t = (r, h') \<longrightarrow> (\<exists>ext. h' = h @ ext) \<Longrightarrow>
   reduce f ts h x = (r, h') \<Longrightarrow> \<exists>ext. h' = h @ ext"
proof (induction ts arbitrary: h x)
  case Nil
  then show ?case by simp
next
  case (Cons t ts)
  obtain r1 h1 where f: "f h x t = (r1, h1)" by (cases "f h x t")
  have "\<exists>e1. h1 = h @ e1"
    using Cons.prems(1) [rule_format, of t h x r1 h1] f by simp
  then obtain e1 where h1: "h1 = h @ e1" ..
  show ?case
  proof (cases r1)
    case (Inl e)
    with f Cons.prems(2) h1 show ?thesis by auto
  next
    case (Inr x1)
    with f Cons.prems(2) have red: "reduce f ts h1 x1 = (r, h')" by simp
    have "\<forall>h x t r h'. t \<in> set ts \<longrightarrow> f h x t = (r, h') \<longrightarrow> (\<exists>ext. h' = h @ ext)"
      using Cons.prems(1) by auto
    with Cons.IH red obtain e2 where "h' = h1 @ e2" by blast
    with h1 show ?thesis by simp
  qed
qed

lemma priv_apply_extends:
  "priv_apply prim d h tr x = (r, h') \<Longrightarrow> \<exists>ext. h' = h @ ext"
proof (induction d arbitrary: h tr x r h')
  case 0
  then show ?case by simp
next
  case (Suc d)
  show ?case
  proof (cases "lookup h tr")
    case None
    with Suc.prems show ?thesis by simp
  next
    case (Some ob)
    show ?thesis
    proof (cases ob)
      case (TransformChain ts)
      with Some Suc.prems
      have "reduce (\<lambda>h' x_i tr'. priv_apply prim d h' tr' x_i) ts h x = (r, h')" by simp
      then show ?thesis
      proof (rule reduce_extends [rotated])
        show "\<forall>h x t r h'. t \<in> set ts \<longrightarrow> priv_apply prim d h t x = (r, h') \<longrightarrow> (\<exists>ext. h' = h @ ext)"
          using Suc.IH by blast
      qed
    next
      case (Instance i)
      with Some Suc.prems show ?thesis
        by (auto split: option.splits sum.splits)
    qed (use Some Suc.prems in auto)
  qed
qed

lemma priv_apply_array:
  "priv_apply prim d h tr x = (Inr y, h') \<Longrightarrow> \<exists>v. lookup h x = Some (NDArray v)
     \<Longrightarrow> \<exists>w. lookup h' y = Some (NDArray w)"
proof (induction d arbitrary: h tr x y h')
  case 0
  then show ?case by simp
next
  case (Suc d)
  show ?case
  proof (cases "lookup h tr")
    case None
    with Suc.prems show ?thesis by simp
  next
    case (Some ob)
    show ?thesis
    proof (cases ob)
      case (TransformChain ts)
      with Some Suc.prems
      have "reduce (\<lambda>h' x_i tr'. priv_apply prim d h' tr' x_i) ts h x = (Inr y, h')" by simp
      then show ?thesis
      proof (rule reduce_invariant [where P = "\<lambda>h x. \<exists>v. lookup h x = Some (NDArray v)", rotated])
        show "\<exists>v. lookup h x = Some (NDArray v)"
          by (rule Suc.prems(2))
        show "\<forall>h x t y h'. t \<in> set ts \<longrightarrow> priv_apply prim d h t x = (Inr y, h') \<longrightarrow>
                (\<exists>v. lookup h x = Some (NDArray v)) \<longrightarrow> (\<exists>v. lookup h' y = Some (NDArray v))"
          using Suc.IH by blast
      qed
    next
      case (Instance i)
      with Some Suc.prems show ?thesis
        by (auto simp: lookup_alloc_new split: option.splits sum.splits)
    qed (use Some Suc.prems in auto)
  qed
qed


lemma call_priv_transform_array:
  "lookup h x = Some (NDArray v) \<Longrightarrow> call_priv_transform tih tr h x = (Inl AttributeError, h)"
  by (simp add: call_priv_transform_def)

lemma call_priv_transform_inplace_array:
  "lookup h x = Some (NDArray v) \<Longrightarrow> call_priv_transform_inplace tih tr h x = (Inl AttributeError, h)"
  by (simp add: call_priv_transform_inplace_def)

lemma Transform_apply_array:
  "lookup h x = Some (NDArray v) \<Longrightarrow> Transform_apply prim tih d h self x = priv_apply prim d h self x"
  by (simp add: Transform_apply_def call_priv_transform_array)

lemma priv_apply_chain2:
  "lookup h c = Some (TransformChain [a, b]) \<Longrightarrow>
   priv_apply prim (Suc d) h c x =
     (case priv_apply prim d h a x of
        (Inl e, h1) \<Rightarrow> (Inl e, h1)
      | (Inr y, h1) \<Rightarrow> priv_apply prim d h1 b y)"
  by (auto split: prod.splits sum.splits)

lemma isinstance_Transform_iff:
  "isinstance h t [''Transform''] \<longleftrightarrow> (\<exists>ob. lookup h t = Some ob \<and> ''Transform'' \<in> set (mro ob))"
  by (auto simp: isinstance_def list_ex_iff split: option.splits)

lemma reachable_keeps_seen: "\<exists>rest. reachable h todo seen = seen @ rest"
proof (induction h todo seen rule: reachable.induct)
  case (1 h seen)
  then show ?case by simp
next
  case (2 h r todo seen)
  show ?case
  proof (cases "r \<in> set seen \<or> length h \<le> r")
    case True
    with 2(1) show ?thesis by simp
  next
    case False
    with 2(2) obtain rest where "reachable h (refs_of (h ! r) @ todo) (seen @ [r]) = (seen @ [r]) @ rest"
      by blast
    with False show ?thesis by simp
  qed
qed

lemma deepcopy_fresh:
  assumes x: "lookup h x = Some ob" and copy: "deepcopy h x = (c, h1)"
  shows "c = length h \<and> (\<exists>ext. h1 = h @ ext) \<and> (\<exists>f. lookup h1 c = Some (map_refs f ob))"
proof -
  from x have lt: "x < length h" and ob: "h ! x = ob"
    by (auto simp: lookup_def split: if_splits)
  from reachable_keeps_seen [of h "refs_of (h ! x) @ []" "[x]"] lt
  obtain rest where olds: "reachable h [x] [] = x # rest"
    by auto
  have upt: "[length h ..< length h + length (x # rest)] = length h # [Suc (length h) ..< length h + length (x # rest)]"
    by (subst upt_rec) simp
  show ?thesis
    using copy ob unfolding deepcopy_def olds Let_def upt
    by (auto simp: lookup_def nth_append)
qed

lemma priv_compose_before_inplace_frame:
  "priv_compose_before_inplace cbi h s t = (res, h') \<Longrightarrow> r \<noteq> s \<Longrightarrow> lookup h' r = lookup h r"
  by (auto simp: priv_compose_before_inplace_def lookup_def split: option.splits obj.splits sum.splits)

lemma priv_compose_after_inplace_frame:
  "priv_compose_after_inplace cai h s t = (res, h') \<Longrightarrow> r \<noteq> s \<Longrightarrow> lookup h' r = lookup h r"
  by (auto simp: priv_compose_after_inplace_def lookup_def split: option.splits obj.splits sum.splits)

lemma lookup_Some_less: "lookup h r = Some ob \<Longrightarrow> r < length h"
  by (simp add: lookup_def split: if_splits)

lemma attr_pointcloud:
  "lookup h r = Some (PointCloud pc) \<Longrightarrow>
     attr_n_dims h (Some r) = Inr (n_dims pc) \<and> attr_n_points h (Some r) = Inr (n_points pc) \<and>
     attr_points h (Some r) = Inr (points pc)"
  by (simp add: attr_n_dims_def attr_n_points_def attr_points_def)

lemma verify_pointclouds:
  "lookup h source = Some (PointCloud sp) \<Longrightarrow> lookup h target = Some (PointCloud tp) \<Longrightarrow>
   Alignable_priv_verify_source_and_target h (Some source) (Some target) =
     (if n_dims sp \<noteq> n_dims tp \<or> n_points sp \<noteq> n_points tp then Inl ValueError else Inr True)"
  by (simp add: Alignable_priv_verify_source_and_target_def attr_pointcloud)

lemma Transform_apply_instance_array:
  "lookup h tr = Some (Instance i) \<Longrightarrow> lookup h x = Some (NDArray v) \<Longrightarrow>
   Transform_apply prim tih (Suc d) h tr x =
     (case prim i (NDArray v) of
        Inl e \<Rightarrow> (Inl e, h)
      | Inr y \<Rightarrow> (Inr (length h), h @ [NDArray y]))"
  by (simp add: Transform_apply_array)

lemma lookup_update_same: "r < length h \<Longrightarrow> lookup (h[r := ob]) r = Some ob"
  by (simp add: lookup_def)

lemma lookup_update_other: "r \<noteq> s \<Longrightarrow> lookup (h[s := ob]) r = lookup h r"
  by (simp add: lookup_def)

lemma vector_compose_after_inplace_refused:
  assumes self: "lookup h self = Some (Instance i)"
    and t: "lookup h transform = Some (Instance ti)"
    and i1: "i1 = i\<lparr>params := update_from_vector i (as_vector ti)\<rparr>"
    and b: "b = from_vector i1 (as_vector i)"
    and gate: "\<not> list_ex (\<lambda>c. c \<in> set (composes_with i)) (bases b)"
  shows "VComposableTransform_priv_compose_after_inplace cbi as_vector update_from_vector from_vector
           h self transform = (Inl ValueError, h[self := Instance i1] @ [Instance b])"
proof -
  let ?h1 = "h[self := Instance i1]"
  let ?h2 = "?h1 @ [Instance b]"
  from self have lt: "self < length h"
    by (rule lookup_Some_less)
  have s1: "lookup ?h1 self = Some (Instance i1)"
    using lt by (simp add: lookup_update_same)
  have s2: "lookup ?h2 self = Some (Instance i1)"
    using s1 by (rule lookup_append_old)
  have b2: "lookup ?h2 (length h) = Some (Instance b)"
    using lookup_alloc_new [of ?h1 "Instance b"] by simp
  have cw: "composes_with i1 = composes_with i"
    by (simp add: i1)
  have inst: "\<not> isinstance ?h2 (length h) (composes_with i)"
    using b2 gate by (simp add: isinstance_def)
  have inner: "ComposableTransform_compose_before_inplace cbi ?h2 self (length h) = (Inl ValueError, ?h2)"
    using s2 inst by (simp add: ComposableTransform_compose_before_inplace_def cw)
  have from_vec: "VComposableTransform_compose_before_from_vector_inplace cbi from_vector ?h1 self (as_vector i)
      = (Inl ValueError, ?h2)"
    using s1 inner by (simp add: VComposableTransform_compose_before_from_vector_inplace_def alloc_def b)
  show ?thesis
    using self t from_vec
    by (simp add: VComposableTransform_priv_compose_after_inplace_def Let_def i1)
qed

lemma call_priv_transform_hookless:
  "lookup h x = Some ob \<Longrightarrow> \<forall>pc. ob \<noteq> PointCloud pc \<Longrightarrow>
   call_priv_transform tih tr h x = (Inl AttributeError, h)"
  by (cases ob) (simp_all add: call_priv_transform_def)

lemma reachable_seen: "set seen \<subseteq> set (reachable h todo seen)"
  using reachable_keeps_seen [of h todo seen] by auto

lemma reachable_todo: "r \<in> set todo \<Longrightarrow> r < length h \<Longrightarrow> r \<in> set (reachable h todo seen)"
proof (induction h todo seen rule: reachable.induct)
  case (1 h seen)
  then show ?case by simp
next
  case (2 h x todo seen)
  show ?case
  proof (cases "x \<in> set seen \<or> length h \<le> x")
    case True
    show ?thesis
    proof (cases "r = x")
      case True
      with \<open>x \<in> set seen \<or> length h \<le> x\<close> 2(4) have "r \<in> set seen" by auto
      then show ?thesis using reachable_seen by blast
    next
      case False
      with 2(3) have "r \<in> set todo" by simp
      with True 2(1) 2(4) show ?thesis by simp
    qed
  next
    case False
    show ?thesis
    proof (cases "r = x")
      case True
      then have "r \<in> set (seen @ [x])" by simp
      then have "r \<in> set (reachable h (refs_of (h ! x) @ todo) (seen @ [x]))"
        using reachable_seen by blast
      with False show ?thesis by simp
    next
      case neq: False
      with 2(3) have "r \<in> set (refs_of (h ! x) @ todo)" by simp
      with False 2(2) 2(4) show ?thesis by simp
    qed
  qed
qed

lemma reachable_valid:
  "\<forall>r\<in>set seen. r < length h \<Longrightarrow> \<forall>r\<in>set (reachable h todo seen). r < length h"
proof (induction h todo seen rule: reachable.induct)
  case (1 h seen)
  then show ?case by simp
next
  case (2 h x todo seen)
  show ?case
  proof (cases "x \<in> set seen \<or> length h \<le> x")
    case True
    with 2(1) 2(3) show ?thesis by simp
  next
    case False
    with 2(3) have "\<forall>r\<in>set (seen @ [x]). r < length h" by auto
    with False 2(2) show ?thesis by simp
  qed
qed

lemma reachable_distinct: "distinct seen \<Longrightarrow> distinct (reachable h todo seen)"
proof (induction h todo seen rule: reachable.induct)
  case (1 h seen)
  then show ?case by simp
next
  case (2 h x todo seen)
  show ?case
  proof (cases "x \<in> set seen \<or> length h \<le> x")
    case True
    with 2(1) 2(3) show ?thesis by simp
  next
    case False
    with 2(3) have "distinct (seen @ [x])" by simp
    with False 2(2) show ?thesis by simp
  qed
qed

lemma reachable_closed:
  "\<forall>r\<in>set seen. \<forall>s\<in>set (refs_of (h ! r)). s < length h \<longrightarrow> s \<in> set seen \<union> set todo \<Longrightarrow>
   \<forall>r\<in>set (reachable h todo seen). \<forall>s\<in>set (refs_of (h ! r)). s < length h \<longrightarrow>
      s \<in> set (reachable h todo seen)"
proof (induction h todo seen rule: reachable.induct)
  case (1 h seen)
  then show ?case by simp
next
  case (2 h x todo seen)
  show ?case
  proof (cases "x \<in> set seen \<or> length h \<le> x")
    case True
    have "\<forall>r\<in>set seen. \<forall>s\<in>set (refs_of (h ! r)). s < length h \<longrightarrow> s \<in> set seen \<union> set todo"
    proof (intro ballI impI)
      fix r s
      assume r: "r \<in> set seen" and s: "s \<in> set (refs_of (h ! r))" and v: "s < length h"
      with 2(3) have "s \<in> set seen \<union> set (x # todo)" by blast
      with True v show "s \<in> set seen \<union> set todo" by auto
    qed
    with True 2(1) show ?thesis by simp
  next
    case False
    have "\<forall>r\<in>set (seen @ [x]). \<forall>s\<in>set (refs_of (h ! r)). s < length h \<longrightarrow>
            s \<in> set (seen @ [x]) \<union> set (refs_of (h ! x) @ todo)"
    proof (intro ballI impI)
      fix r s
      assume r: "r \<in> set (seen @ [x])" and s: "s \<in> set (refs_of (h ! r))" and v: "s < length h"
      show "s \<in> set (seen @ [x]) \<union> set (refs_of (h ! x) @ todo)"
      proof (cases "r = x")
        case True
        with s show ?thesis by simp
      next
        case neq: False
        with r have "r \<in> set seen" by simp
        with 2(3) s v have "s \<in> set seen \<union> set (x # todo)" by blast
        then show ?thesis by auto
      qed
    qed
    with False 2(2) show ?thesis by simp
  qed
qed

lemma deepcopy_isomorphic:
  assumes x: "lookup h x = Some ob" and copy: "deepcopy h x = (c, h1)"
  shows "\<exists>copy R. c = copy x \<and> x \<in> R \<and> inj_on copy R \<and>
           (\<forall>r\<in>R. r < length h \<and> length h \<le> copy r \<and>
                  lookup h1 (copy r) = Some (map_refs copy (h ! r)) \<and>
                  (\<forall>s\<in>set (refs_of (h ! r)). s < length h \<longrightarrow> s \<in> R))"
proof -
  define olds where "olds = reachable h [x] []"
  define n where "n = length h"
  define memo where "memo = map_of (zip olds [n ..< n + length olds])"
  define cp where "cp = (\<lambda>r. case memo r of None \<Rightarrow> r | Some c \<Rightarrow> c)"
  from x have lt: "x < length h"
    by (rule lookup_Some_less)
  have dist: "distinct olds"
    unfolding olds_def by (rule reachable_distinct) simp
  have valid: "\<forall>r\<in>set olds. r < length h"
    unfolding olds_def by (rule reachable_valid) simp
  have closed: "\<forall>r\<in>set olds. \<forall>s\<in>set (refs_of (h ! r)). s < length h \<longrightarrow> s \<in> set olds"
    unfolding olds_def by (rule reachable_closed) simp
  have root: "x \<in> set olds"
    unfolding olds_def using lt by (intro reachable_todo) simp_all
  have memo_nth: "memo (olds ! k) = Some (n + k)" if "k < length olds" for k
  proof -
    have "length olds = length [n ..< n + length olds]"
      by simp
    from map_of_zip_nth [OF this dist] that
    have "map_of (zip olds [n ..< n + length olds]) (olds ! k) = Some ([n ..< n + length olds] ! k)"
      by simp
    with that show ?thesis
      by (simp add: memo_def)
  qed
  have cp_nth: "cp (olds ! k) = n + k" if "k < length olds" for k
    using memo_nth [OF that] by (simp add: cp_def)
  have "fst (deepcopy h x) = cp x"
    unfolding deepcopy_def Let_def cp_def memo_def olds_def n_def by (simp only: fst_conv)
  moreover have "snd (deepcopy h x) = h @ map (\<lambda>r. map_refs cp (h ! r)) olds"
    unfolding deepcopy_def Let_def cp_def memo_def olds_def n_def by (simp only: snd_conv)
  ultimately have result: "c = cp x" "h1 = h @ map (\<lambda>r. map_refs cp (h ! r)) olds"
    by (simp_all only: copy fst_conv snd_conv)
  have inj: "inj_on cp (set olds)"
  proof (rule inj_onI)
    fix r s
    assume "r \<in> set olds" "s \<in> set olds" "cp r = cp s"
    then obtain k l where k: "k < length olds" "olds ! k = r" and l: "l < length olds" "olds ! l = s"
      by (auto simp: in_set_conv_nth)
    with \<open>cp r = cp s\<close> cp_nth [of k] cp_nth [of l] have "k = l"
      by simp
    with k l show "r = s"
      by simp
  qed
  have cell: "r < length h \<and> length h \<le> cp r \<and> lookup h1 (cp r) = Some (map_refs cp (h ! r)) \<and>
              (\<forall>s\<in>set (refs_of (h ! r)). s < length h \<longrightarrow> s \<in> set olds)"
    if "r \<in> set olds" for r
  proof -
    from that obtain k where k: "k < length olds" "olds ! k = r"
      by (auto simp: in_set_conv_nth)
    then have cpr: "cp r = n + k"
      using cp_nth [of k] by simp
    have "lookup h1 (n + k) = Some (map_refs cp (h ! r))"
      using k by (simp add: result(2) lookup_def n_def nth_append)
    moreover from that valid have "r < length h"
      by blast
    moreover from that closed have "\<forall>s\<in>set (refs_of (h ! r)). s < length h \<longrightarrow> s \<in> set olds"
      by blast
    ultimately show ?thesis
      by (simp add: cpr n_def)
  qed
  from result(1) root inj cell show ?thesis
    by blast
qed

section \<open>The claims\<close>

text \<open>
  C10. The empty chain is the identity: \<^verbatim>\<open>TransformChain([])\<close> applied to \<open>x\<close>
  returns \<open>x\<close> itself (the same reference) and leaves the store as it was, whatever
  call depth above zero is available; for an array \<open>x\<close> this is also what
  \<^verbatim>\<open>apply\<close> returns.
\<close>

theorem empty_chain_is_identity:
  assumes "TransformChain_init h [] = (c, h')"
  shows "priv_apply prim (Suc d) h' c x = (Inr x, h') \<and>
         (lookup h' x = Some (NDArray v) \<longrightarrow> Transform_apply prim tih (Suc d) h' c x = (Inr x, h'))"
proof -
  from assms have c: "lookup h' c = Some (TransformChain [])"
    by (auto simp: TransformChain_init_def alloc_def lookup_def)
  then have "priv_apply prim (Suc d) h' c x = (Inr x, h')"
    by simp
  then show ?thesis
    by (simp add: Transform_apply_array del: priv_apply.simps)
qed

theorem empty_chain_is_identity_witness:
  "TransformChain_init example_store [] = (3, example_store @ [TransformChain []]) \<and>
   priv_apply Translation_prim (Suc 0) (example_store @ [TransformChain []]) 3 0
     = (Inr 0, example_store @ [TransformChain []]) \<and>
   lookup (example_store @ [TransformChain []]) 0 = Some (NDArray [1, 2]) \<and>
   Transform_apply Translation_prim no_hook (Suc 0) (example_store @ [TransformChain []]) 3 0
     = (Inr 0, example_store @ [TransformChain []])"
proof -
  have init: "TransformChain_init example_store [] = (3, example_store @ [TransformChain []])"
    by (simp add: TransformChain_init_def alloc_def example_store_def)
  have arr: "lookup (example_store @ [TransformChain []]) 0 = Some (NDArray [1, 2])"
    by (simp add: lookup_def example_store_def)
  show ?thesis
    using empty_chain_is_identity [OF init, of Translation_prim 0 0 "[1, 2]" no_hook] init arr
    by blast
qed

text \<open>
  C1. For transforms \<open>a\<close>, \<open>b\<close> and an array \<open>p\<close>, with \<open>c1 = a.compose_before(b)\<close>
  and \<open>c2 = a.compose_after(b)\<close> built by \<^verbatim>\<open>Transform\<close>: \<open>c1.apply(p)\<close> is
  \<open>b.apply(a.apply(p))\<close> and \<open>c2.apply(p)\<close> is \<open>a.apply(b.apply(p))\<close>, results, stores
  and exceptions alike (the chain's own \<^verbatim>\<open>_apply\<close> takes one level of call depth);
  and every object that existed before either call, \<open>a\<close> and \<open>b\<close> among them, is
  unchanged after it.
\<close>

theorem compose_before_after_chain:
  assumes before: "Transform_compose_before h a b = (c1, h1)"
    and after: "Transform_compose_after h a b = (c2, h2)"
    and p: "lookup h p = Some (NDArray v)"
  shows "Transform_apply prim tih (Suc d) h1 c1 p =
           (case Transform_apply prim tih d h1 a p of
              (Inl e, h') \<Rightarrow> (Inl e, h')
            | (Inr y, h') \<Rightarrow> Transform_apply prim tih d h' b y) \<and>
         Transform_apply prim tih (Suc d) h2 c2 p =
           (case Transform_apply prim tih d h2 b p of
              (Inl e, h') \<Rightarrow> (Inl e, h')
            | (Inr y, h') \<Rightarrow> Transform_apply prim tih d h' a y) \<and>
         (\<forall>r ob. lookup h r = Some ob \<longrightarrow> lookup h1 r = Some ob \<and> lookup h2 r = Some ob)"
proof -
  have h1: "h1 = h @ [TransformChain [a, b]]" and c1: "c1 = length h"
    using before by (auto simp: Transform_compose_before_def TransformChain_init_def alloc_def)
  have h2: "h2 = h @ [TransformChain [b, a]]" and c2: "c2 = length h"
    using after by (auto simp: Transform_compose_after_def TransformChain_init_def alloc_def)
  have frame: "\<forall>r ob. lookup h r = Some ob \<longrightarrow> lookup h1 r = Some ob \<and> lookup h2 r = Some ob"
    by (simp add: h1 h2 lookup_append_old)
  have chain: "Transform_apply prim tih (Suc d) g c p =
           (case Transform_apply prim tih d g s p of
              (Inl e, h') \<Rightarrow> (Inl e, h')
            | (Inr y, h') \<Rightarrow> Transform_apply prim tih d h' t y)"
    if g: "lookup g c = Some (TransformChain [s, t])" and pg: "lookup g p = Some (NDArray v)"
    for g c s t
  proof -
    have lhs: "Transform_apply prim tih (Suc d) g c p =
           (case priv_apply prim d g s p of
              (Inl e, h') \<Rightarrow> (Inl e, h')
            | (Inr y, h') \<Rightarrow> priv_apply prim d h' t y)"
      using priv_apply_chain2 [OF g] by (simp only: Transform_apply_array [OF pg])
    obtain r g' where r: "priv_apply prim d g s p = (r, g')"
      by (cases "priv_apply prim d g s p")
    show ?thesis
    proof (cases r)
      case (Inl e)
      with r lhs show ?thesis
        by (simp add: Transform_apply_array [OF pg])
    next
      case (Inr y)
      with r pg obtain w where "lookup g' y = Some (NDArray w)"
        using priv_apply_array [of prim d g s p y g'] by auto
      with r Inr lhs show ?thesis
        by (simp add: Transform_apply_array [OF pg] Transform_apply_array [of g' y w])
    qed
  qed
  have "lookup h1 c1 = Some (TransformChain [a, b])" "lookup h2 c2 = Some (TransformChain [b, a])"
    by (simp_all add: h1 h2 c1 c2 lookup_alloc_new)
  moreover have "lookup h1 p = Some (NDArray v)" "lookup h2 p = Some (NDArray v)"
    using frame p by auto
  ultimately show ?thesis
    using chain frame by blast
qed


theorem compose_before_after_chain_witness:
  "Transform_compose_before example_store 1 2 = (3, example_store @ [TransformChain [1, 2]]) \<and>
   Transform_compose_after example_store 1 2 = (3, example_store @ [TransformChain [2, 1]]) \<and>
   lookup example_store 0 = Some (NDArray [1, 2]) \<and>
   Transform_apply Translation_prim no_hook (Suc (Suc 0)) (example_store @ [TransformChain [1, 2]]) 3 0
     = (Inr 5, example_store @ [TransformChain [1, 2], NDArray [11, 12], NDArray [16, 17]]) \<and>
   Transform_apply Translation_prim no_hook (Suc (Suc 0)) (example_store @ [TransformChain [2, 1]]) 3 0
     = (Inr 5, example_store @ [TransformChain [2, 1], NDArray [6, 7], NDArray [16, 17]]) \<and>
   lookup (example_store @ [TransformChain [1, 2]]) 1 = Some (Instance (Translation 10)) \<and>
   lookup (example_store @ [TransformChain [2, 1]]) 2 = Some (Instance (Translation 5))"
proof -
  let ?h = "example_store"
  have before: "Transform_compose_before ?h 1 2 = (3, ?h @ [TransformChain [1, 2]])"
    by (simp add: Transform_compose_before_def TransformChain_init_def alloc_def example_store_def)
  have after: "Transform_compose_after ?h 1 2 = (3, ?h @ [TransformChain [2, 1]])"
    by (simp add: Transform_compose_after_def TransformChain_init_def alloc_def example_store_def)
  have arr: "lookup ?h 0 = Some (NDArray [1, 2])"
    by (simp add: lookup_def example_store_def)
  have a: "Transform_apply Translation_prim no_hook (Suc 0) (?h @ [TransformChain [1, 2]]) 1 0
             = (Inr 4, ?h @ [TransformChain [1, 2], NDArray [11, 12]])"
    by (simp add: Transform_apply_def call_priv_transform_def lookup_def Translation_prim_def
          Translation_def example_store_def)
  have b: "Transform_apply Translation_prim no_hook (Suc 0) (?h @ [TransformChain [1, 2], NDArray [11, 12]]) 2 4
             = (Inr 5, ?h @ [TransformChain [1, 2], NDArray [11, 12], NDArray [16, 17]])"
    by (simp add: Transform_apply_def call_priv_transform_def lookup_def Translation_prim_def
          Translation_def example_store_def)
  have a': "Transform_apply Translation_prim no_hook (Suc 0) (?h @ [TransformChain [2, 1]]) 2 0
             = (Inr 4, ?h @ [TransformChain [2, 1], NDArray [6, 7]])"
    by (simp add: Transform_apply_def call_priv_transform_def lookup_def Translation_prim_def
          Translation_def example_store_def)
  have b': "Transform_apply Translation_prim no_hook (Suc 0) (?h @ [TransformChain [2, 1], NDArray [6, 7]]) 1 4
             = (Inr 5, ?h @ [TransformChain [2, 1], NDArray [6, 7], NDArray [16, 17]])"
    by (simp add: Transform_apply_def call_priv_transform_def lookup_def Translation_prim_def
          Translation_def example_store_def)
  have l1: "lookup ?h 1 = Some (Instance (Translation 10))" and l2: "lookup ?h 2 = Some (Instance (Translation 5))"
    by (simp_all add: lookup_def example_store_def)
  note chain = compose_before_after_chain [OF before after arr, of Translation_prim no_hook "Suc 0"]
  from chain have "Transform_apply Translation_prim no_hook (Suc (Suc 0)) (?h @ [TransformChain [1, 2]]) 3 0
     = (Inr 5, ?h @ [TransformChain [1, 2], NDArray [11, 12], NDArray [16, 17]])"
    by (simp only: a b prod.case sum.case)
  moreover from chain have "Transform_apply Translation_prim no_hook (Suc (Suc 0)) (?h @ [TransformChain [2, 1]]) 3 0
     = (Inr 5, ?h @ [TransformChain [2, 1], NDArray [6, 7], NDArray [16, 17]])"
    by (simp only: a' b' prod.case sum.case)
  moreover from chain l1 l2 have "lookup (?h @ [TransformChain [1, 2]]) 1 = Some (Instance (Translation 10))"
    "lookup (?h @ [TransformChain [2, 1]]) 2 = Some (Instance (Translation 5))"
    by blast+
  ultimately show ?thesis
    using before after arr by blast
qed

text \<open>
  C6. With \<open>chain = TransformChain([a, b])\<close>: its \<^verbatim>\<open>_apply\<close> on \<open>x\<close> is
  \<open>b._apply(a._apply(x))\<close>, the fold from the left, and so is \<^verbatim>\<open>apply\<close> on an array;
  \<^verbatim>\<open>compose_before_inplace\<close> with a Transform \<open>c\<close> leaves the store that building
  \<open>TransformChain([a, b, c])\<close> in its place would have left, and
  \<^verbatim>\<open>compose_after_inplace\<close> with \<open>t\<close> the store of \<open>TransformChain([t, a, b])\<close>; the
  chain's \<^verbatim>\<open>composes_inplace_with\<close> is \<^verbatim>\<open>Transform\<close>, which admits every object with
  that class among its bases.
\<close>

theorem chain_fold_and_inplace_composition:
  assumes init: "TransformChain_init h [a, b] = (chain, h')"
  shows "priv_apply prim (Suc d) h' chain x =
           (case priv_apply prim d h' a x of
              (Inl e, h1) \<Rightarrow> (Inl e, h1)
            | (Inr y, h1) \<Rightarrow> priv_apply prim d h1 b y) \<and>
         (lookup h' x = Some (NDArray v) \<longrightarrow>
            Transform_apply prim tih (Suc d) h' chain x =
              (case priv_apply prim d h' a x of
                 (Inl e, h1) \<Rightarrow> (Inl e, h1)
               | (Inr y, h1) \<Rightarrow> priv_apply prim d h1 b y)) \<and>
         (isinstance h' c [''Transform''] \<longrightarrow>
            ComposableTransform_compose_before_inplace cbi h' chain c =
              (Inr (), snd (TransformChain_init h [a, b, c]))) \<and>
         (isinstance h' t [''Transform''] \<longrightarrow>
            ComposableTransform_compose_after_inplace cai h' chain t =
              (Inr (), snd (TransformChain_init h [t, a, b]))) \<and>
         (\<exists>ob. lookup h' chain = Some ob \<and> composes_inplace_with ob = Inr [''Transform'']) \<and>
         (\<forall>u ob. lookup h' u = Some ob \<and> ''Transform'' \<in> set (mro ob) \<longrightarrow> isinstance h' u [''Transform''])"
proof -
  from init have h': "h' = h @ [TransformChain [a, b]]" and chain: "chain = length h"
    by (auto simp: TransformChain_init_def alloc_def)
  have cell: "lookup h' chain = Some (TransformChain [a, b])"
    by (simp add: h' chain lookup_alloc_new)
  note fold = priv_apply_chain2 [OF cell, of prim d x]
  have app: "lookup h' x = Some (NDArray v) \<longrightarrow>
            Transform_apply prim tih (Suc d) h' chain x =
              (case priv_apply prim d h' a x of
                 (Inl e, h1) \<Rightarrow> (Inl e, h1)
               | (Inr y, h1) \<Rightarrow> priv_apply prim d h1 b y)"
  proof
    assume xa: "lookup h' x = Some (NDArray v)"
    show "Transform_apply prim tih (Suc d) h' chain x =
              (case priv_apply prim d h' a x of
                 (Inl e, h1) \<Rightarrow> (Inl e, h1)
               | (Inr y, h1) \<Rightarrow> priv_apply prim d h1 b y)"
      using fold by (simp only: Transform_apply_array [OF xa])
  qed
  have before: "isinstance h' c [''Transform''] \<longrightarrow>
            ComposableTransform_compose_before_inplace cbi h' chain c =
              (Inr (), snd (TransformChain_init h [a, b, c]))"
    using cell
    by (simp add: ComposableTransform_compose_before_inplace_def priv_compose_before_inplace_def
          TransformChain_init_def alloc_def h' chain)
  have after: "isinstance h' t [''Transform''] \<longrightarrow>
            ComposableTransform_compose_after_inplace cai h' chain t =
              (Inr (), snd (TransformChain_init h [t, a, b]))"
    using cell
    by (simp add: ComposableTransform_compose_after_inplace_def priv_compose_after_inplace_def
          TransformChain_init_def alloc_def h' chain)
  have admits: "\<forall>u ob. lookup h' u = Some ob \<and> ''Transform'' \<in> set (mro ob) \<longrightarrow> isinstance h' u [''Transform'']"
    by (simp add: isinstance_Transform_iff)
  from fold app before after cell admits show ?thesis
    by simp
qed

theorem chain_fold_and_inplace_composition_witness:
  "TransformChain_init example_store [1, 2] = (3, example_store @ [TransformChain [1, 2]]) \<and>
   priv_apply Translation_prim (Suc (Suc 0)) (example_store @ [TransformChain [1, 2]]) 3 0
     = (Inr 5, example_store @ [TransformChain [1, 2], NDArray [11, 12], NDArray [16, 17]]) \<and>
   lookup (example_store @ [TransformChain [1, 2]]) 0 = Some (NDArray [1, 2]) \<and>
   Transform_apply Translation_prim no_hook (Suc (Suc 0)) (example_store @ [TransformChain [1, 2]]) 3 0
     = (Inr 5, example_store @ [TransformChain [1, 2], NDArray [11, 12], NDArray [16, 17]]) \<and>
   isinstance (example_store @ [TransformChain [1, 2]]) 2 [''Transform''] \<and>
   ComposableTransform_compose_before_inplace Translation_compose (example_store @ [TransformChain [1, 2]]) 3 2
     = (Inr (), example_store @ [TransformChain [1, 2, 2]]) \<and>
   ComposableTransform_compose_after_inplace Translation_compose (example_store @ [TransformChain [1, 2]]) 3 2
     = (Inr (), example_store @ [TransformChain [2, 1, 2]])"
proof -
  let ?h = "example_store @ [TransformChain [1, 2]]"
  have init: "TransformChain_init example_store [1, 2] = (3, ?h)"
    by (simp add: TransformChain_init_def alloc_def example_store_def)
  have arr: "lookup ?h 0 = Some (NDArray [1, 2])"
    by (simp add: lookup_def example_store_def)
  have tr: "isinstance ?h 2 [''Transform'']"
    by (simp add: isinstance_def lookup_def example_store_def Translation_def)
  have a: "priv_apply Translation_prim (Suc 0) ?h 1 0 = (Inr 4, example_store @ [TransformChain [1, 2], NDArray [11, 12]])"
    by (simp add: lookup_def Translation_prim_def Translation_def example_store_def)
  have b: "priv_apply Translation_prim (Suc 0) (example_store @ [TransformChain [1, 2], NDArray [11, 12]]) 2 4
             = (Inr 5, example_store @ [TransformChain [1, 2], NDArray [11, 12], NDArray [16, 17]])"
    by (simp add: lookup_def Translation_prim_def Translation_def example_store_def)
  have i1: "snd (TransformChain_init example_store [1, 2, 2]) = example_store @ [TransformChain [1, 2, 2]]"
    and i2: "snd (TransformChain_init example_store [2, 1, 2]) = example_store @ [TransformChain [2, 1, 2]]"
    by (simp_all add: TransformChain_init_def alloc_def)
  note chain = chain_fold_and_inplace_composition [OF init,
      where prim = Translation_prim and d = "Suc 0" and x = 0 and v = "[1, 2]" and tih = no_hook
        and c = 2 and t = 2 and cbi = Translation_compose and cai = Translation_compose]
  from chain have "priv_apply Translation_prim (Suc (Suc 0)) ?h 3 0
     = (Inr 5, example_store @ [TransformChain [1, 2], NDArray [11, 12], NDArray [16, 17]])"
    by (simp only: a b prod.case sum.case)
  moreover from chain arr have "Transform_apply Translation_prim no_hook (Suc (Suc 0)) ?h 3 0
     = (Inr 5, example_store @ [TransformChain [1, 2], NDArray [11, 12], NDArray [16, 17]])"
    by (simp only: a b prod.case sum.case)
  moreover from chain tr have "ComposableTransform_compose_before_inplace Translation_compose ?h 3 2
     = (Inr (), example_store @ [TransformChain [1, 2, 2]])"
    by (simp only: i1)
  moreover from chain tr have "ComposableTransform_compose_after_inplace Translation_compose ?h 3 2
     = (Inr (), example_store @ [TransformChain [2, 1, 2]])"
    by (simp only: i2)
  ultimately show ?thesis
    using init arr tr by blast
qed

text \<open>
  C2. For a ComposableTransform \<open>a\<close> with \<open>cs = a.composes_inplace_with\<close>: when \<open>t\<close> is
  no instance of \<open>cs\<close>, \<^verbatim>\<open>compose_before_inplace\<close> and \<^verbatim>\<open>compose_after_inplace\<close>
  raise \<^verbatim>\<open>ValueError\<close> and leave the whole store, \<open>a\<close> included, as it was; when it
  is one, the gate raises nothing and the call is the class's own
  \<^verbatim>\<open>_compose_before_inplace\<close> or \<^verbatim>\<open>_compose_after_inplace\<close>, which succeeds on a
  chain and on an instance whose hook returns.
\<close>

theorem inplace_composition_gate:
  assumes a: "lookup h a = Some ob" and cs: "composes_inplace_with ob = Inr cs"
  shows "(\<not> isinstance h t cs \<longrightarrow>
            ComposableTransform_compose_before_inplace cbi h a t = (Inl ValueError, h) \<and>
            ComposableTransform_compose_after_inplace cai h a t = (Inl ValueError, h)) \<and>
         (isinstance h t cs \<longrightarrow>
            ComposableTransform_compose_before_inplace cbi h a t = priv_compose_before_inplace cbi h a t \<and>
            ComposableTransform_compose_after_inplace cai h a t = priv_compose_after_inplace cai h a t \<and>
            (\<forall>transforms. ob = TransformChain transforms \<longrightarrow>
               ComposableTransform_compose_before_inplace cbi h a t
                 = (Inr (), h[a := TransformChain (transforms @ [t])]) \<and>
               ComposableTransform_compose_after_inplace cai h a t
                 = (Inr (), h[a := TransformChain (t # transforms)])) \<and>
            (\<forall>i tob p. ob = Instance i \<and> lookup h t = Some tob \<and> cbi i tob = Inr p \<longrightarrow>
               ComposableTransform_compose_before_inplace cbi h a t
                 = (Inr (), h[a := Instance (i\<lparr>params := p\<rparr>)])) \<and>
            (\<forall>i tob p. ob = Instance i \<and> lookup h t = Some tob \<and> cai i tob = Inr p \<longrightarrow>
               ComposableTransform_compose_after_inplace cai h a t
                 = (Inr (), h[a := Instance (i\<lparr>params := p\<rparr>)])))"
proof (cases ob)
  case (TransformChain transforms)
  with a cs show ?thesis
    by (simp add: ComposableTransform_compose_before_inplace_def ComposableTransform_compose_after_inplace_def
          priv_compose_before_inplace_def priv_compose_after_inplace_def)
next
  case (Instance i)
  with a cs show ?thesis
    by (auto simp: ComposableTransform_compose_before_inplace_def ComposableTransform_compose_after_inplace_def
          priv_compose_before_inplace_def priv_compose_after_inplace_def)
qed (use cs in simp_all)

theorem inplace_composition_gate_witness:
  "lookup example_store 1 = Some (Instance (Translation 10)) \<and>
   composes_inplace_with (Instance (Translation 10) :: (int, int list) obj) = Inr [''Translation''] \<and>
   \<not> isinstance example_store 0 [''Translation''] \<and>
   ComposableTransform_compose_before_inplace Translation_compose example_store 1 0
     = (Inl ValueError, example_store) \<and>
   ComposableTransform_compose_after_inplace Translation_compose example_store 1 0
     = (Inl ValueError, example_store) \<and>
   isinstance example_store 2 [''Translation''] \<and>
   ComposableTransform_compose_before_inplace Translation_compose example_store 1 2
     = (Inr (), example_store[1 := Instance (Translation 15)]) \<and>
   ComposableTransform_compose_after_inplace Translation_compose example_store 1 2
     = (Inr (), example_store[1 := Instance (Translation 15)])"
proof -
  have a: "lookup example_store 1 = Some (Instance (Translation 10))"
    by (simp add: lookup_def example_store_def)
  have cs: "composes_inplace_with (Instance (Translation 10) :: (int, int list) obj) = Inr [''Translation'']"
    by (simp add: Translation_def)
  have no: "\<not> isinstance example_store 0 [''Translation'']"
    by (simp add: isinstance_def lookup_def example_store_def)
  have yes: "isinstance example_store 2 [''Translation'']"
    by (simp add: isinstance_def lookup_def example_store_def Translation_def)
  have t: "lookup example_store 2 = Some (Instance (Translation 5))"
    by (simp add: lookup_def example_store_def)
  have hook: "Translation_compose (Translation 10) (Instance (Translation 5)) = Inr 15"
    by (simp add: Translation_compose_def Translation_def)
  have upd: "(Translation 10)\<lparr>params := 15\<rparr> = Translation 15"
    by (simp add: Translation_def)
  note refuse = inplace_composition_gate [OF a cs, where t = 0 and cbi = Translation_compose
      and cai = Translation_compose]
  note accept = inplace_composition_gate [OF a cs, where t = 2 and cbi = Translation_compose
      and cai = Translation_compose]
  from refuse no have
    "ComposableTransform_compose_before_inplace Translation_compose example_store 1 0
       = (Inl ValueError, example_store) \<and>
     ComposableTransform_compose_after_inplace Translation_compose example_store 1 0
       = (Inl ValueError, example_store)"
    by blast
  moreover from accept yes t hook have
    "ComposableTransform_compose_before_inplace Translation_compose example_store 1 2
       = (Inr (), example_store[1 := Instance ((Translation 10)\<lparr>params := 15\<rparr>)]) \<and>
     ComposableTransform_compose_after_inplace Translation_compose example_store 1 2
       = (Inr (), example_store[1 := Instance ((Translation 10)\<lparr>params := 15\<rparr>)])"
    by blast
  ultimately show ?thesis
    using a cs no yes by (simp only: upd) blast
qed

text \<open>
  C4. For point sets \<open>source\<close>, \<open>target\<close> and \<open>new_target\<close>: \<^verbatim>\<open>align(source, target)\<close>
  raises \<^verbatim>\<open>ValueError\<close> and leaves the store untouched when the dimensions or the
  point counts differ, and is \<^verbatim>\<open>cls._align(source, target)\<close> when both agree. On a
  transform that is bound with current target \<open>target\<close>, assigning \<open>new_target\<close> to
  the property \<^verbatim>\<open>target\<close> raises \<^verbatim>\<open>ValueError\<close> with the store untouched when its
  dimensions or point count differ from the current target's, and is
  \<^verbatim>\<open>_target_setter(new_target)\<close> when both agree. On a transform that is not bound
  the setter raises \<^verbatim>\<open>NotImplementedError\<close>.
\<close>

theorem align_and_target_setter_validate:
  assumes s: "lookup h source = Some (PointCloud sp)"
    and t: "lookup h target = Some (PointCloud tp)"
    and n: "lookup h new_target = Some (PointCloud np)"
    and self: "lookup h self = Some (Instance i)"
  shows "(n_dims sp \<noteq> n_dims tp \<or> n_points sp \<noteq> n_points tp \<longrightarrow>
            Alignable_align priv_align cls h (Some source) (Some target) = (Inl ValueError, h)) \<and>
         (n_dims sp = n_dims tp \<and> n_points sp = n_points tp \<longrightarrow>
            Alignable_align priv_align cls h (Some source) (Some target)
              = priv_align cls h (Some source) (Some target)) \<and>
         (is_alignment_transform i \<and> Alignable_target i = Some target \<and>
          (n_dims np \<noteq> n_dims tp \<or> n_points np \<noteq> n_points tp) \<longrightarrow>
            Alignable_target_set priv_target_setter h self (Some new_target) = (Inl ValueError, h)) \<and>
         (is_alignment_transform i \<and> Alignable_target i = Some target \<and>
          n_dims np = n_dims tp \<and> n_points np = n_points tp \<longrightarrow>
            Alignable_target_set priv_target_setter h self (Some new_target)
              = priv_target_setter h self (Some new_target)) \<and>
         (\<not> is_alignment_transform i \<longrightarrow>
            Alignable_target_set priv_target_setter h self (Some new_target) = (Inl NotImplementedError, h))"
proof -
  have align: "Alignable_align priv_align cls h (Some source) (Some target) =
      (if n_dims sp \<noteq> n_dims tp \<or> n_points sp \<noteq> n_points tp then (Inl ValueError, h)
       else priv_align cls h (Some source) (Some target))"
    by (simp add: Alignable_align_def verify_pointclouds [OF s t])
  have setter: "Alignable_target_set priv_target_setter h self (Some new_target) =
      (if \<not> is_alignment_transform i then (Inl NotImplementedError, h)
       else if n_dims np \<noteq> n_dims tp \<or> n_points np \<noteq> n_points tp then (Inl ValueError, h)
       else priv_target_setter h self (Some new_target))"
    if "Alignable_target i = Some target"
    using self that by (simp add: Alignable_target_set_def attr_pointcloud [OF n] attr_pointcloud [OF t])
  have unbound: "Alignable_target_set priv_target_setter h self (Some new_target) = (Inl NotImplementedError, h)"
    if "\<not> is_alignment_transform i"
    using self that by (simp add: Alignable_target_set_def)
  show ?thesis
    using setter unbound unfolding align by simp
qed

theorem align_and_target_setter_validate_witness:
  "lookup alignment_store 0 = Some (PointCloud \<lparr>n_dims = 2, n_points = 2, points = [0, 0, 1, 1]\<rparr>) \<and>
   lookup alignment_store 1 = Some (PointCloud \<lparr>n_dims = 2, n_points = 2, points = [1, 1, 2, 5]\<rparr>) \<and>
   lookup alignment_store 2 = Some (PointCloud \<lparr>n_dims = 3, n_points = 2, points = [0, 0, 0, 1, 1, 1]\<rparr>) \<and>
   Alignable_align example_align ''AlignmentTranslation'' alignment_store (Some 2) (Some 1)
     = (Inl ValueError, alignment_store) \<and>
   Alignable_align example_align ''AlignmentTranslation'' alignment_store (Some 0) (Some 1)
     = (Inr 5, alignment_store @
          [Instance ((AlignmentTranslation 1)\<lparr>source_attr := Some 0, target_attr := Some 1\<rparr>)]) \<and>
   Alignable_target_set example_target_setter alignment_store 3 (Some 2) = (Inl ValueError, alignment_store) \<and>
   Alignable_target_set example_target_setter alignment_store 3 (Some 0)
     = (Inr (), alignment_store[3 :=
          Instance ((AlignmentTranslation 1)\<lparr>source_attr := Some 0, target_attr := Some 0\<rparr>)]) \<and>
   Alignable_target_set example_target_setter alignment_store 4 (Some 0)
     = (Inl NotImplementedError, alignment_store)"
proof -
  let ?bound = "(AlignmentTranslation 1)\<lparr>source_attr := Some 0, target_attr := Some 1\<rparr>"
  have p0: "lookup alignment_store 0 = Some (PointCloud \<lparr>n_dims = 2, n_points = 2, points = [0, 0, 1, 1]\<rparr>)"
    and p1: "lookup alignment_store 1 = Some (PointCloud \<lparr>n_dims = 2, n_points = 2, points = [1, 1, 2, 5]\<rparr>)"
    and p2: "lookup alignment_store 2 = Some (PointCloud \<lparr>n_dims = 3, n_points = 2, points = [0, 0, 0, 1, 1, 1]\<rparr>)"
    and b: "lookup alignment_store 3 = Some (Instance ?bound)"
    and u: "lookup alignment_store 4 = Some (Instance (AlignmentTranslation 1))"
    by (simp_all add: lookup_def alignment_store_def)
  have bound: "is_alignment_transform ?bound" "Alignable_target ?bound = Some 1"
    and unbound: "\<not> is_alignment_transform (AlignmentTranslation 1)"
    by (simp_all add: is_alignment_transform_def Alignable_source_def Alignable_target_def
          AlignmentTranslation_def)
  have len: "length alignment_store = 5"
    by (simp add: alignment_store_def)
  have hook: "example_target_setter alignment_store 3 (Some 0)
      = (Inr (), alignment_store[3 :=
          Instance ((AlignmentTranslation 1)\<lparr>source_attr := Some 0, target_attr := Some 0\<rparr>)])"
    by (simp add: example_target_setter_def b)
  note mismatch = align_and_target_setter_validate [OF p2 p1 p2 b, where priv_align = example_align
      and cls = "''AlignmentTranslation''" and priv_target_setter = example_target_setter]
  note match = align_and_target_setter_validate [OF p0 p1 p0 b, where priv_align = example_align
      and cls = "''AlignmentTranslation''" and priv_target_setter = example_target_setter]
  note state = align_and_target_setter_validate [OF p0 p1 p0 u, where priv_align = example_align
      and cls = "''AlignmentTranslation''" and priv_target_setter = example_target_setter]
  from mismatch bound have
    "Alignable_align example_align ''AlignmentTranslation'' alignment_store (Some 2) (Some 1)
       = (Inl ValueError, alignment_store)"
    "Alignable_target_set example_target_setter alignment_store 3 (Some 2) = (Inl ValueError, alignment_store)"
    by simp_all
  moreover from match bound have
    "Alignable_align example_align ''AlignmentTranslation'' alignment_store (Some 0) (Some 1)
       = (Inr 5, alignment_store @ [Instance ?bound])"
    "Alignable_target_set example_target_setter alignment_store 3 (Some 0)
     = (Inr (), alignment_store[3 :=
          Instance ((AlignmentTranslation 1)\<lparr>source_attr := Some 0, target_attr := Some 0\<rparr>)])"
    by (simp_all add: example_align_def len hook)
  moreover from state unbound have
    "Alignable_target_set example_target_setter alignment_store 4 (Some 0)
       = (Inl NotImplementedError, alignment_store)"
    by simp
  ultimately show ?thesis
    using p0 p1 p2 by blast
qed

text \<open>
  C7. Constructing a PureAlignment from point sets raises \<^verbatim>\<open>ValueError\<close> when their
  dimensions or point counts differ, and otherwise returns a new object that stores
  both. Whatever the arguments are (\<^verbatim>\<open>None\<close> included), a construction that returns
  has verified them and its result has \<^verbatim>\<open>is_alignment_transform\<close> true, with
  \<^verbatim>\<open>source\<close> and \<^verbatim>\<open>target\<close> the arguments. \<^verbatim>\<open>PureAlignment.align\<close> is the
  constructor call.
\<close>

theorem pure_alignment_bound_at_birth:
  assumes s: "lookup h source = Some (PointCloud sp)"
    and t: "lookup h target = Some (PointCloud tp)"
  shows "(n_dims sp \<noteq> n_dims tp \<or> n_points sp \<noteq> n_points tp \<longrightarrow>
            fst (PureAlignment_new cls h (Some source) (Some target)) = Inl ValueError) \<and>
         (n_dims sp = n_dims tp \<and> n_points sp = n_points tp \<longrightarrow>
            PureAlignment_new cls h (Some source) (Some target) =
              (Inr (length h),
               h @ [Instance (cls\<lparr>source_attr := Some source, target_attr := Some target\<rparr>)])) \<and>
         (\<forall>src tgt self h'. PureAlignment_new cls h src tgt = (Inr self, h') \<longrightarrow>
            (\<exists>i. lookup h' self = Some (Instance i) \<and> is_alignment_transform i \<and>
                 Alignable_source i = src \<and> Alignable_target i = tgt \<and>
                 Alignable_priv_verify_source_and_target h src tgt = Inr True)) \<and>
         (\<forall>src tgt. PureAlignment_align cls h src tgt = PureAlignment_new cls h src tgt)"
proof -
  let ?blank = "Instance (cls\<lparr>source_attr := None, target_attr := None\<rparr>) :: ('a, 'b) obj"
  have init: "PureAlignment_init (h @ [Instance cls]) (length h) src tgt =
      (case Alignable_priv_verify_source_and_target (h @ [?blank]) src tgt of
         Inl e \<Rightarrow> (Inl e, h @ [?blank])
       | Inr ok \<Rightarrow>
           if ok then (Inr (), h @ [Instance (cls\<lparr>source_attr := src, target_attr := tgt\<rparr>)])
           else (Inr (), h @ [?blank]))" for src tgt
    by (simp add: PureAlignment_init_def Alignable_init_def lookup_def split: sum.splits)
  have new: "PureAlignment_new cls h src tgt =
      (case Alignable_priv_verify_source_and_target (h @ [?blank]) src tgt of
         Inl e \<Rightarrow> (Inl e, h @ [?blank])
       | Inr ok \<Rightarrow>
           if ok then (Inr (length h), h @ [Instance (cls\<lparr>source_attr := src, target_attr := tgt\<rparr>)])
           else (Inr (length h), h @ [?blank]))" for src tgt
    by (simp add: PureAlignment_new_def alloc_def init split: sum.splits)
  have verify_true: "ok" if "Alignable_priv_verify_source_and_target g src tgt = Inr ok"
    for g :: "('a, 'b) heap" and src tgt ok
    using that by (auto simp: Alignable_priv_verify_source_and_target_def split: sum.splits if_splits)
  have verify_some: "src \<noteq> None \<and> tgt \<noteq> None" if "Alignable_priv_verify_source_and_target g src tgt = Inr ok"
    for g :: "('a, 'b) heap" and src tgt ok
    using that
    by (auto simp: Alignable_priv_verify_source_and_target_def attr_n_dims_def
          split: sum.splits if_splits option.splits)
  have verify_old: "Alignable_priv_verify_source_and_target h src tgt = Inr ok"
    if "Alignable_priv_verify_source_and_target (h @ [?blank]) src tgt = Inr ok" for src tgt ok
  proof -
    have pc: "attr_n_dims (h @ [?blank]) x = Inr v \<Longrightarrow> attr_n_dims h x = Inr v"
      "attr_n_points (h @ [?blank]) x = Inr v \<Longrightarrow> attr_n_points h x = Inr v" for x v
      by (auto simp: attr_n_dims_def attr_n_points_def lookup_def nth_append
            split: option.splits if_splits obj.splits)
    from that show ?thesis
      by (auto simp: Alignable_priv_verify_source_and_target_def split: sum.splits if_splits dest!: pc)
  qed
  have ext: "Alignable_priv_verify_source_and_target (h @ [?blank]) (Some source) (Some target) =
      (if n_dims sp \<noteq> n_dims tp \<or> n_points sp \<noteq> n_points tp then Inl ValueError else Inr True)"
    by (rule verify_pointclouds) (simp_all add: s t lookup_append_old)
  have born: "\<exists>i. lookup h' self = Some (Instance i) \<and> is_alignment_transform i \<and>
                 Alignable_source i = src \<and> Alignable_target i = tgt \<and>
                 Alignable_priv_verify_source_and_target h src tgt = Inr True"
    if run: "PureAlignment_new cls h src tgt = (Inr self, h')" for src tgt self h'
  proof -
    from run obtain ok where v: "Alignable_priv_verify_source_and_target (h @ [?blank]) src tgt = Inr ok"
      by (auto simp: new split: sum.splits)
    from verify_true [OF v] have ok by simp
    with v run have "self = length h"
      and "h' = h @ [Instance (cls\<lparr>source_attr := src, target_attr := tgt\<rparr>)]"
      by (auto simp: new)
    moreover from verify_some [OF v] have "src \<noteq> None \<and> tgt \<noteq> None" .
    moreover from verify_old [OF v] \<open>ok\<close> have "Alignable_priv_verify_source_and_target h src tgt = Inr True"
      by simp
    ultimately show ?thesis
      by (simp add: lookup_alloc_new is_alignment_transform_def Alignable_source_def Alignable_target_def)
  qed
  show ?thesis
    using born by (simp add: new ext PureAlignment_align_def)
qed

theorem pure_alignment_bound_at_birth_witness:
  "lookup alignment_store 0 = Some (PointCloud \<lparr>n_dims = 2, n_points = 2, points = [0, 0, 1, 1]\<rparr>) \<and>
   lookup alignment_store 1 = Some (PointCloud \<lparr>n_dims = 2, n_points = 2, points = [1, 1, 2, 5]\<rparr>) \<and>
   lookup alignment_store 2 = Some (PointCloud \<lparr>n_dims = 3, n_points = 2, points = [0, 0, 0, 1, 1, 1]\<rparr>) \<and>
   fst (PureAlignment_new (AlignmentTranslation 1) alignment_store (Some 2) (Some 1)) = Inl ValueError \<and>
   PureAlignment_new (AlignmentTranslation 1) alignment_store (Some 0) (Some 1)
     = (Inr 5, alignment_store @
          [Instance ((AlignmentTranslation 1)\<lparr>source_attr := Some 0, target_attr := Some 1\<rparr>)]) \<and>
   is_alignment_transform ((AlignmentTranslation 1)\<lparr>source_attr := Some 0, target_attr := Some 1\<rparr>) \<and>
   PureAlignment_align (AlignmentTranslation 1) alignment_store (Some 0) (Some 1)
     = (Inr 5, alignment_store @
          [Instance ((AlignmentTranslation 1)\<lparr>source_attr := Some 0, target_attr := Some 1\<rparr>)]) \<and>
   fst (PureAlignment_new (AlignmentTranslation 1) alignment_store None (Some 1)) = Inl AttributeError"
proof -
  let ?bound = "(AlignmentTranslation 1)\<lparr>source_attr := Some 0, target_attr := Some 1\<rparr>"
  have p0: "lookup alignment_store 0 = Some (PointCloud \<lparr>n_dims = 2, n_points = 2, points = [0, 0, 1, 1]\<rparr>)"
    and p1: "lookup alignment_store 1 = Some (PointCloud \<lparr>n_dims = 2, n_points = 2, points = [1, 1, 2, 5]\<rparr>)"
    and p2: "lookup alignment_store 2 = Some (PointCloud \<lparr>n_dims = 3, n_points = 2, points = [0, 0, 0, 1, 1, 1]\<rparr>)"
    by (simp_all add: lookup_def alignment_store_def)
  have len: "length alignment_store = 5"
    by (simp add: alignment_store_def)
  have none: "fst (PureAlignment_new (AlignmentTranslation 1) alignment_store None (Some 1)) = Inl AttributeError"
    by (simp add: PureAlignment_new_def PureAlignment_init_def Alignable_init_def alloc_def lookup_def
          Alignable_priv_verify_source_and_target_def attr_n_dims_def)
  note mismatch = pure_alignment_bound_at_birth [OF p2 p1, where cls = "AlignmentTranslation 1"]
  note match = pure_alignment_bound_at_birth [OF p0 p1, where cls = "AlignmentTranslation 1"]
  from mismatch have bad: "fst (PureAlignment_new (AlignmentTranslation 1) alignment_store (Some 2) (Some 1)) = Inl ValueError"
    by simp
  from match have new: "PureAlignment_new (AlignmentTranslation 1) alignment_store (Some 0) (Some 1)
     = (Inr 5, alignment_store @ [Instance ?bound])"
    by (simp add: len)
  from match new have "\<exists>i. lookup (alignment_store @ [Instance ?bound]) 5 = Some (Instance i) \<and>
      is_alignment_transform i"
    by blast
  moreover have "lookup (alignment_store @ [Instance ?bound]) 5 = Some (Instance ?bound)"
    using lookup_alloc_new [of alignment_store "Instance ?bound"] by (simp only: len)
  ultimately have born: "is_alignment_transform ?bound"
    by auto
  from match new have same: "PureAlignment_align (AlignmentTranslation 1) alignment_store (Some 0) (Some 1)
     = (Inr 5, alignment_store @ [Instance ?bound])"
    by simp
  from p0 p1 p2 bad new born same none show ?thesis
    by blast
qed

text \<open>
  C8. On a bound alignment transform \<^verbatim>\<open>aligned_source\<close> is \<^verbatim>\<open>self.apply(self.source)\<close>,
  and \<^verbatim>\<open>alignment_error\<close> is \<^verbatim>\<open>np.linalg.norm\<close> of numpy's difference of
  \<^verbatim>\<open>target.points\<close> and \<^verbatim>\<open>aligned_source.points\<close> (for a two-dimensional array
  that norm is the Frobenius norm, which the example instantiates). On a transform
  that is not bound \<^verbatim>\<open>aligned_source\<close> raises \<^verbatim>\<open>ValueError\<close> and
  \<^verbatim>\<open>alignment_error\<close> raises \<^verbatim>\<open>ValueError\<close> or \<^verbatim>\<open>AttributeError\<close>.
\<close>

theorem aligned_source_and_alignment_error:
  assumes self: "lookup h self = Some (Instance i)"
  shows "(is_alignment_transform i \<longrightarrow>
            (\<exists>source. Alignable_source i = Some source \<and>
               Alignable_aligned_source prim tih d h self = Transform_apply prim tih d h self source)) \<and>
         (\<forall>target tp aligned h1 ap difference.
            is_alignment_transform i \<and> Alignable_target i = Some target \<and>
            lookup h target = Some (PointCloud tp) \<and>
            Alignable_aligned_source prim tih d h self = (Inr aligned, h1) \<and>
            lookup h1 aligned = Some (PointCloud ap) \<and>
            np_subtract (points tp) (points ap) = Inr difference \<longrightarrow>
            Alignable_alignment_error prim tih np_subtract np_linalg_norm d h self
              = (Inr (np_linalg_norm difference), h1)) \<and>
         (\<not> is_alignment_transform i \<longrightarrow>
            Alignable_aligned_source prim tih d h self = (Inl ValueError, h) \<and>
            (Alignable_alignment_error prim tih np_subtract np_linalg_norm d h self = (Inl ValueError, h) \<or>
             Alignable_alignment_error prim tih np_subtract np_linalg_norm d h self = (Inl AttributeError, h)))"
proof (intro conjI impI allI)
  assume "is_alignment_transform i"
  then obtain source where "Alignable_source i = Some source"
    by (auto simp: is_alignment_transform_def)
  with self \<open>is_alignment_transform i\<close>
  show "\<exists>source. Alignable_source i = Some source \<and>
               Alignable_aligned_source prim tih d h self = Transform_apply prim tih d h self source"
    by (simp add: Alignable_aligned_source_def)
next
  fix target tp aligned h1 ap difference
  assume "is_alignment_transform i \<and> Alignable_target i = Some target \<and>
            lookup h target = Some (PointCloud tp) \<and>
            Alignable_aligned_source prim tih d h self = (Inr aligned, h1) \<and>
            lookup h1 aligned = Some (PointCloud ap) \<and>
            np_subtract (points tp) (points ap) = Inr difference"
  with self show "Alignable_alignment_error prim tih np_subtract np_linalg_norm d h self
              = (Inr (np_linalg_norm difference), h1)"
    by (simp add: Alignable_alignment_error_def attr_pointcloud)
next
  assume unbound: "\<not> is_alignment_transform i"
  with self show src: "Alignable_aligned_source prim tih d h self = (Inl ValueError, h)"
    by (simp add: Alignable_aligned_source_def)
  show "Alignable_alignment_error prim tih np_subtract np_linalg_norm d h self = (Inl ValueError, h) \<or>
        Alignable_alignment_error prim tih np_subtract np_linalg_norm d h self = (Inl AttributeError, h)"
  proof (cases "attr_points h (Alignable_target i)")
    case (Inl e)
    then have "e = AttributeError"
      by (auto simp: attr_points_def split: option.splits obj.splits)
    with Inl self show ?thesis
      by (simp add: Alignable_alignment_error_def)
  next
    case (Inr target_points)
    with self src show ?thesis
      by (simp add: Alignable_alignment_error_def)
  qed
qed

theorem aligned_source_and_alignment_error_witness:
  "lookup alignment_store 3
     = Some (Instance ((AlignmentTranslation 1)\<lparr>source_attr := Some 0, target_attr := Some 1\<rparr>)) \<and>
   is_alignment_transform ((AlignmentTranslation 1)\<lparr>source_attr := Some 0, target_attr := Some 1\<rparr>) \<and>
   Alignable_aligned_source AlignmentTranslation_prim PointCloud_transform_inplace (Suc 0) alignment_store 3
     = Transform_apply AlignmentTranslation_prim PointCloud_transform_inplace (Suc 0) alignment_store 3 0 \<and>
   Alignable_aligned_source AlignmentTranslation_prim PointCloud_transform_inplace (Suc 0) alignment_store 3
     = (Inr 5, alignment_store @
          [PointCloud \<lparr>n_dims = 2, n_points = 2, points = [1, 1, 2, 2]\<rparr>,
           NDArray [0, 0, 1, 1], NDArray [1, 1, 2, 2]]) \<and>
   Alignable_alignment_error AlignmentTranslation_prim PointCloud_transform_inplace
       example_subtract frobenius_norm (Suc 0) alignment_store 3
     = (Inr (frobenius_norm [0, 0, 0, 3]), alignment_store @
          [PointCloud \<lparr>n_dims = 2, n_points = 2, points = [1, 1, 2, 2]\<rparr>,
           NDArray [0, 0, 1, 1], NDArray [1, 1, 2, 2]]) \<and>
   frobenius_norm [0, 0, 0, 3] = 3 \<and>
   lookup alignment_store 4 = Some (Instance (AlignmentTranslation 1)) \<and>
   \<not> is_alignment_transform (AlignmentTranslation 1) \<and>
   Alignable_aligned_source AlignmentTranslation_prim PointCloud_transform_inplace (Suc 0) alignment_store 4
     = (Inl ValueError, alignment_store) \<and>
   Alignable_alignment_error AlignmentTranslation_prim PointCloud_transform_inplace
       example_subtract frobenius_norm (Suc 0) alignment_store 4
     = (Inl AttributeError, alignment_store)"
proof -
  let ?bound = "(AlignmentTranslation 1)\<lparr>source_attr := Some 0, target_attr := Some 1\<rparr>"
  let ?after = "alignment_store @
          [PointCloud \<lparr>n_dims = 2, n_points = 2, points = [1, 1, 2, 2]\<rparr>,
           NDArray [0, 0, 1, 1], NDArray [1, 1, 2, 2]]"
  have b: "lookup alignment_store 3 = Some (Instance ?bound)"
    and u: "lookup alignment_store 4 = Some (Instance (AlignmentTranslation 1))"
    and p1: "lookup alignment_store 1 = Some (PointCloud \<lparr>n_dims = 2, n_points = 2, points = [1, 1, 2, 5]\<rparr>)"
    by (simp_all add: lookup_def alignment_store_def)
  have bound: "is_alignment_transform ?bound" and src: "Alignable_source ?bound = Some 0"
    and tgt: "Alignable_target ?bound = Some 1"
    and unbound: "\<not> is_alignment_transform (AlignmentTranslation 1)"
    and notarget: "Alignable_target (AlignmentTranslation 1) = None"
    by (simp_all add: is_alignment_transform_def Alignable_source_def Alignable_target_def
          AlignmentTranslation_def)
  have copy: "deepcopy alignment_store 0
      = (5, alignment_store @ [PointCloud \<lparr>n_dims = 2, n_points = 2, points = [0, 0, 1, 1]\<rparr>])"
    by (simp add: deepcopy_def alignment_store_def)
  have p0: "lookup alignment_store 0 = Some (PointCloud \<lparr>n_dims = 2, n_points = 2, points = [0, 0, 1, 1]\<rparr>)"
    by (simp add: lookup_def alignment_store_def)
  have hook: "PointCloud_transform_inplace
      (\<lambda>h' x'. priv_apply AlignmentTranslation_prim (Suc 0) h' 3 x')
      (alignment_store @ [PointCloud \<lparr>n_dims = 2, n_points = 2, points = [0, 0, 1, 1]\<rparr>]) 5
      = (Inr (), ?after)"
    by (simp add: PointCloud_transform_inplace_def alloc_def lookup_def alignment_store_def
          AlignmentTranslation_prim_def AlignmentTranslation_def)
  have tr: "Transformable_priv_transform PointCloud_transform_inplace
      (\<lambda>h' x'. priv_apply AlignmentTranslation_prim (Suc 0) h' 3 x') alignment_store 0
      = (Inr 5, ?after)"
    by (simp add: Transformable_priv_transform_def copy hook del: priv_apply.simps)
  have app: "Transform_apply AlignmentTranslation_prim PointCloud_transform_inplace (Suc 0) alignment_store 3 0
      = (Inr 5, ?after)"
    by (simp add: Transform_apply_def call_priv_transform_def p0 tr del: priv_apply.simps)
  have res: "lookup ?after 5 = Some (PointCloud \<lparr>n_dims = 2, n_points = 2, points = [1, 1, 2, 2]\<rparr>)"
    by (simp add: lookup_def alignment_store_def)
  have sub: "example_subtract (points \<lparr>n_dims = 2, n_points = 2, points = [1, 1, 2, 5 :: int]\<rparr>)
      (points \<lparr>n_dims = 2, n_points = 2, points = [1, 1, 2, 2 :: int]\<rparr>) = Inr [0, 0, 0, 3]"
    by (simp add: example_subtract_def)
  have norm: "frobenius_norm [0, 0, 0, 3] = 3"
  proof -
    have "sqrt 9 = 3"
      using real_sqrt_abs [of 3] by simp
    then show ?thesis
      by (simp add: frobenius_norm_def)
  qed
  note on_bound = aligned_source_and_alignment_error [OF b, where prim = AlignmentTranslation_prim
      and tih = PointCloud_transform_inplace and d = "Suc 0" and np_subtract = example_subtract
      and np_linalg_norm = frobenius_norm]
  note on_unbound = aligned_source_and_alignment_error [OF u, where prim = AlignmentTranslation_prim
      and tih = PointCloud_transform_inplace and d = "Suc 0" and np_subtract = example_subtract
      and np_linalg_norm = frobenius_norm]
  from on_bound bound src have eq:
    "Alignable_aligned_source AlignmentTranslation_prim PointCloud_transform_inplace (Suc 0) alignment_store 3
       = Transform_apply AlignmentTranslation_prim PointCloud_transform_inplace (Suc 0) alignment_store 3 0"
    by auto
  with app have al:
    "Alignable_aligned_source AlignmentTranslation_prim PointCloud_transform_inplace (Suc 0) alignment_store 3
       = (Inr 5, ?after)"
    by simp
  from on_bound bound tgt p1 al res sub have err:
    "Alignable_alignment_error AlignmentTranslation_prim PointCloud_transform_inplace
       example_subtract frobenius_norm (Suc 0) alignment_store 3
     = (Inr (frobenius_norm [0, 0, 0, 3]), ?after)"
    by blast
  from on_unbound unbound have ual:
    "Alignable_aligned_source AlignmentTranslation_prim PointCloud_transform_inplace (Suc 0) alignment_store 4
       = (Inl ValueError, alignment_store)"
    by blast
  have uerr: "Alignable_alignment_error AlignmentTranslation_prim PointCloud_transform_inplace
       example_subtract frobenius_norm (Suc 0) alignment_store 4
     = (Inl AttributeError, alignment_store)"
    by (simp add: Alignable_alignment_error_def u notarget attr_points_def)
  from b bound eq al err norm u unbound ual uerr show ?thesis
    by blast
qed

text \<open>
  C3. The default \<^verbatim>\<open>VComposableTransform._compose_after_inplace(t)\<close> on a receiver
  \<open>a\<close>. Let \<open>i1\<close> be the receiver after \<^verbatim>\<open>update_from_vector(t.as_vector())\<close> and \<open>b\<close>
  the instance that \<^verbatim>\<open>from_vector\<close> builds from the snapshot of the receiver's vector.
  When the vector interface and the compose-before path do what the strategy relies on
  (\<open>i1\<close> maps arrays as \<open>t\<close> does, \<open>b\<close> maps arrays as the original receiver does,
  \<open>b\<close> is an instance of the receiver's \<^verbatim>\<open>composes_inplace_with\<close>, and
  \<^verbatim>\<open>_compose_before_inplace\<close> returns parameters that map an array as \<open>i1\<close> followed by
  \<open>b\<close>), the call returns, and for every array \<open>p\<close> the value of \<open>a_new.apply(p)\<close>
  is the value of \<open>a_orig.apply(t.apply(p))\<close>, an exception of \<open>t\<close> or of \<open>a_orig\<close>
  included; every object other than the receiver, \<open>t\<close> among them, is unchanged.
\<close>

theorem vector_compose_after_inplace:
  assumes self: "lookup h self = Some (Instance i)"
    and t: "lookup h transform = Some (Instance ti)"
    and p: "lookup h p = Some (NDArray v)"
    and i1: "i1 = i\<lparr>params := update_from_vector i (as_vector ti)\<rparr>"
    and b: "b = from_vector i1 (as_vector i)"
    and updated: "\<forall>w. prim i1 (NDArray w) = prim ti (NDArray w)"
    and decoded: "\<forall>w. prim b (NDArray w) = prim i (NDArray w)"
    and gate: "list_ex (\<lambda>c. c \<in> set (composes_with i)) (bases b)"
    and hook: "cbi i1 (Instance b) = Inr pn"
    and composed: "\<forall>w. prim (i1\<lparr>params := pn\<rparr>) (NDArray w) =
                     (case prim i1 (NDArray w) of Inl e \<Rightarrow> Inl e | Inr y \<Rightarrow> prim b (NDArray y))"
  shows "\<exists>h'. VComposableTransform_priv_compose_after_inplace cbi as_vector update_from_vector from_vector
                 h self transform = (Inr (), h') \<and>
              returned_value (Transform_apply prim tih (Suc d) h' self p) =
                returned_value (case Transform_apply prim tih (Suc d) h transform p of
                                  (Inl e, h1) \<Rightarrow> (Inl e, h1)
                                | (Inr y, h1) \<Rightarrow> Transform_apply prim tih (Suc d) h1 self y) \<and>
              (\<forall>r ob. r \<noteq> self \<and> lookup h r = Some ob \<longrightarrow> lookup h' r = Some ob)"
proof -
  let ?h1 = "h[self := Instance i1]"
  let ?h2 = "?h1 @ [Instance b]"
  let ?h' = "?h2[self := Instance (i1\<lparr>params := pn\<rparr>)]"
  from self have lt: "self < length h"
    by (rule lookup_Some_less)
  have s1: "lookup ?h1 self = Some (Instance i1)"
    using lt by (simp add: lookup_update_same)
  have s2: "lookup ?h2 self = Some (Instance i1)"
    using s1 by (rule lookup_append_old)
  have b2: "lookup ?h2 (length h) = Some (Instance b)"
    using lookup_alloc_new [of ?h1 "Instance b"] by simp
  have cw: "composes_with i1 = composes_with i"
    by (simp add: i1)
  have inst: "isinstance ?h2 (length h) (composes_with i)"
    using b2 gate by (simp add: isinstance_def)
  have inner: "ComposableTransform_compose_before_inplace cbi ?h2 self (length h) = (Inr (), ?h')"
    using s2 b2 inst hook
    by (simp add: ComposableTransform_compose_before_inplace_def priv_compose_before_inplace_def cw)
  have from_vec: "VComposableTransform_compose_before_from_vector_inplace cbi from_vector ?h1 self (as_vector i)
      = (Inr (), ?h')"
    using s1 inner by (simp add: VComposableTransform_compose_before_from_vector_inplace_def alloc_def b)
  have call: "VComposableTransform_priv_compose_after_inplace cbi as_vector update_from_vector from_vector
                 h self transform = (Inr (), ?h')"
    using self t from_vec
    by (simp add: VComposableTransform_priv_compose_after_inplace_def Let_def i1)
  have frame: "lookup ?h' r = Some ob" if "r \<noteq> self" "lookup h r = Some ob" for r ob
  proof -
    from that have "lookup ?h1 r = Some ob"
      by (simp add: lookup_update_other)
    then have "lookup ?h2 r = Some ob"
      by (rule lookup_append_old)
    with that(1) show ?thesis
      by (simp add: lookup_update_other)
  qed
  have "p \<noteq> self"
    using self p by auto
  then have p': "lookup ?h' p = Some (NDArray v)"
    using p by (rule frame)
  have self': "lookup ?h' self = Some (Instance (i1\<lparr>params := pn\<rparr>))"
    using lt by (simp add: lookup_update_same)
  have new: "Transform_apply prim tih (Suc d) ?h' self p =
      (case prim (i1\<lparr>params := pn\<rparr>) (NDArray v) of
         Inl e \<Rightarrow> (Inl e, ?h')
       | Inr y \<Rightarrow> (Inr (length ?h'), ?h' @ [NDArray y]))"
    by (rule Transform_apply_instance_array [OF self' p'])
  have first: "Transform_apply prim tih (Suc d) h transform p =
      (case prim ti (NDArray v) of
         Inl e \<Rightarrow> (Inl e, h)
       | Inr y \<Rightarrow> (Inr (length h), h @ [NDArray y]))"
    by (rule Transform_apply_instance_array [OF t p])
  have second: "Transform_apply prim tih (Suc d) (h @ [NDArray y]) self (length h) =
      (case prim i (NDArray y) of
         Inl e \<Rightarrow> (Inl e, h @ [NDArray y])
       | Inr z \<Rightarrow> (Inr (length (h @ [NDArray y])), (h @ [NDArray y]) @ [NDArray z]))" for y
    by (rule Transform_apply_instance_array [OF lookup_append_old [OF self] lookup_alloc_new])
  have same_value: "returned_value (Transform_apply prim tih (Suc d) ?h' self p) =
                returned_value (case Transform_apply prim tih (Suc d) h transform p of
                                  (Inl e, h1) \<Rightarrow> (Inl e, h1)
                                | (Inr y, h1) \<Rightarrow> Transform_apply prim tih (Suc d) h1 self y)"
  proof (cases "prim ti (NDArray v)")
    case (Inl e)
    with updated composed show ?thesis
      unfolding new first by (simp add: returned_value_def)
  next
    case (Inr y)
    show ?thesis
    proof (cases "prim i (NDArray y)")
      case (Inl e)
      with Inr updated decoded composed show ?thesis
        unfolding new first by (simp add: returned_value_def second del: Transform_apply_def)
    next
      case z: (Inr z)
      have l1: "lookup (?h' @ [NDArray z]) (length ?h') = Some (NDArray z)"
        by (rule lookup_alloc_new)
      have l2: "lookup ((h @ [NDArray y]) @ [NDArray z]) (length (h @ [NDArray y])) = Some (NDArray z)"
        by (rule lookup_alloc_new)
      from Inr z updated decoded composed show ?thesis
        unfolding new first by (simp only: returned_value_def second sum.case prod.case l1 l2)
    qed
  qed
  from call same_value frame show ?thesis
    by blast
qed

theorem vector_compose_after_inplace_witness:
  "lookup example_store 1 = Some (Instance (Translation 10)) \<and>
   lookup example_store 2 = Some (Instance (Translation 5)) \<and>
   lookup example_store 0 = Some (NDArray [1, 2]) \<and>
   VComposableTransform_priv_compose_after_inplace Translation_compose Translation_as_vector
       Translation_update_from_vector Translation_from_vector example_store 1 2
     = (Inr (), (example_store[1 := Instance (Translation 5)] @ [Instance (Translation 10)])
                  [1 := Instance (Translation 15)]) \<and>
   returned_value (Transform_apply Translation_prim no_hook (Suc 0)
       ((example_store[1 := Instance (Translation 5)] @ [Instance (Translation 10)])
          [1 := Instance (Translation 15)]) 1 0)
     = Inr (Some (NDArray [16, 17])) \<and>
   returned_value (case Transform_apply Translation_prim no_hook (Suc 0) example_store 2 0 of
                     (Inl e, h1) \<Rightarrow> (Inl e, h1)
                   | (Inr y, h1) \<Rightarrow> Transform_apply Translation_prim no_hook (Suc 0) h1 1 y)
     = Inr (Some (NDArray [16, 17])) \<and>
   lookup ((example_store[1 := Instance (Translation 5)] @ [Instance (Translation 10)])
             [1 := Instance (Translation 15)]) 2
     = Some (Instance (Translation 5))"
proof -
  let ?h' = "(example_store[1 := Instance (Translation 5)] @ [Instance (Translation 10)])
               [1 := Instance (Translation 15)]"
  have self: "lookup example_store 1 = Some (Instance (Translation 10))"
    and t: "lookup example_store 2 = Some (Instance (Translation 5))"
    and p: "lookup example_store 0 = Some (NDArray [1, 2])"
    by (simp_all add: lookup_def example_store_def)
  have i1: "Translation 5
      = (Translation 10)\<lparr>params := Translation_update_from_vector (Translation 10)
                                       (Translation_as_vector (Translation 5))\<rparr>"
    by (simp add: Translation_def Translation_update_from_vector_def Translation_as_vector_def)
  have b: "Translation 10 = Translation_from_vector (Translation 5) (Translation_as_vector (Translation 10))"
    by (simp add: Translation_def Translation_from_vector_def Translation_as_vector_def)
  have updated: "\<forall>w. Translation_prim (Translation 5) (NDArray w) = Translation_prim (Translation 5) (NDArray w)"
    by simp
  have decoded: "\<forall>w. Translation_prim (Translation 10) (NDArray w) = Translation_prim (Translation 10) (NDArray w)"
    by simp
  have gate: "list_ex (\<lambda>c. c \<in> set (composes_with (Translation 10))) (bases (Translation 10))"
    by (simp add: Translation_def)
  have hook: "Translation_compose (Translation 5) (Instance (Translation 10)) = Inr 15"
    by (simp add: Translation_compose_def Translation_def)
  have composed: "\<forall>w. Translation_prim ((Translation 5)\<lparr>params := 15\<rparr>) (NDArray w) =
      (case Translation_prim (Translation 5) (NDArray w) of
         Inl e \<Rightarrow> Inl e
       | Inr y \<Rightarrow> Translation_prim (Translation 10) (NDArray y))"
    by (simp add: Translation_prim_def Translation_def)
  have call: "VComposableTransform_priv_compose_after_inplace Translation_compose Translation_as_vector
       Translation_update_from_vector Translation_from_vector example_store 1 2 = (Inr (), ?h')"
    by (simp add: VComposableTransform_priv_compose_after_inplace_def
          VComposableTransform_compose_before_from_vector_inplace_def
          ComposableTransform_compose_before_inplace_def priv_compose_before_inplace_def
          alloc_def isinstance_def lookup_def example_store_def Translation_def Translation_compose_def
          Translation_as_vector_def Translation_update_from_vector_def Translation_from_vector_def)
  have rhs: "returned_value (case Transform_apply Translation_prim no_hook (Suc 0) example_store 2 0 of
                     (Inl e, h1) \<Rightarrow> (Inl e, h1)
                   | (Inr y, h1) \<Rightarrow> Transform_apply Translation_prim no_hook (Suc 0) h1 1 y)
     = Inr (Some (NDArray [16, 17]))"
    by (simp add: returned_value_def Transform_apply_def call_priv_transform_def lookup_def
          example_store_def Translation_prim_def Translation_def)
  from vector_compose_after_inplace [where as_vector = Translation_as_vector
      and update_from_vector = Translation_update_from_vector and from_vector = Translation_from_vector
      and prim = Translation_prim and cbi = Translation_compose and tih = no_hook and d = 0,
      OF self t p i1 b updated decoded gate hook composed]
  obtain h' where run: "VComposableTransform_priv_compose_after_inplace Translation_compose
        Translation_as_vector Translation_update_from_vector Translation_from_vector example_store 1 2
        = (Inr (), h')"
    and eq: "returned_value (Transform_apply Translation_prim no_hook (Suc 0) h' 1 0) =
        returned_value (case Transform_apply Translation_prim no_hook (Suc 0) example_store 2 0 of
                          (Inl e, h1) \<Rightarrow> (Inl e, h1)
                        | (Inr y, h1) \<Rightarrow> Transform_apply Translation_prim no_hook (Suc 0) h1 1 y)"
    and frame: "\<forall>r ob. r \<noteq> 1 \<and> lookup example_store r = Some ob \<longrightarrow> lookup h' r = Some ob"
    by blast
  from run call have h': "h' = ?h'"
    by simp
  from eq rhs have lhs: "returned_value (Transform_apply Translation_prim no_hook (Suc 0) ?h' 1 0)
      = Inr (Some (NDArray [16, 17]))"
    by (simp only: h')
  from frame t have kept: "lookup ?h' 2 = Some (Instance (Translation 5))"
    unfolding h' by auto
  from self t p call lhs rhs kept show ?thesis
    by blast
qed

text \<open>
  C9. For an object \<open>x\<close> without the Transformable hooks, \<^verbatim>\<open>apply\<close> is the primitive
  mapping \<^verbatim>\<open>_apply(x)\<close> and changes no existing object, \<open>x\<close> included; the missing
  hook raises nothing, the only exceptions are those of the primitive mapping. For an
  array \<open>x\<close>, \<^verbatim>\<open>apply_inplace\<close> assigns the primitive mapping's result to \<open>x\<close> by
  numpy's assignment: \<open>x\<close> holds what the assignment makes of the result (the
  result itself when the assignment stores it as it is, which numpy does for a result
  of the shape and element type of \<open>x\<close>), and when the assignment raises, the call
  raises and \<open>x\<close> is as before.
\<close>

theorem apply_without_hook:
  assumes x: "lookup h x = Some ob" and hookless: "\<forall>pc. ob \<noteq> PointCloud pc"
  shows "Transform_apply prim tih d h self x = priv_apply prim d h self x \<and>
         (\<forall>res h1 r kept. Transform_apply prim tih d h self x = (res, h1) \<and> lookup h r = Some kept
             \<longrightarrow> lookup h1 r = Some kept) \<and>
         (\<forall>a v h1. ob = NDArray a \<and> priv_apply prim d h self x = (Inr v, h1) \<longrightarrow>
             (\<exists>w. lookup h1 v = Some (NDArray w) \<and>
                  Transform_apply_inplace np_setitem prim tih d h self x =
                    (case np_setitem a w of
                       Inl e \<Rightarrow> (Inl e, h1)
                     | Inr a' \<Rightarrow> (Inr (), h1[x := NDArray a'])) \<and>
                  (np_setitem a w = Inr w \<longrightarrow>
                     Transform_apply_inplace np_setitem prim tih d h self x = (Inr (), h1[x := NDArray w])))) \<and>
         (\<forall>a e h1. ob = NDArray a \<and> priv_apply prim d h self x = (Inl e, h1) \<longrightarrow>
             Transform_apply_inplace np_setitem prim tih d h self x = (Inl e, h1))"
proof -
  have eq: "Transform_apply prim tih d h self x = priv_apply prim d h self x"
    by (simp add: Transform_apply_def call_priv_transform_hookless [OF x hookless])
  have frame: "lookup h1 r = Some kept"
    if "priv_apply prim d h self x = (res, h1)" "lookup h r = Some kept" for res h1 r kept
    using priv_apply_extends [OF that(1)] that(2) by (auto simp: lookup_append_old)
  have inplace: "Transform_apply_inplace np_setitem prim tih d h self x =
      (case priv_apply prim d h self x of
         (Inl e, h2) \<Rightarrow> (Inl e, h2)
       | (Inr v, h2) \<Rightarrow> setitem_ellipsis np_setitem h2 x v)" if "ob = NDArray a" for a
    using x that by (simp add: Transform_apply_inplace_def call_priv_transform_inplace_array)
  have ok: "\<exists>w. lookup h1 v = Some (NDArray w) \<and>
                  Transform_apply_inplace np_setitem prim tih d h self x =
                    (case np_setitem a w of
                       Inl e \<Rightarrow> (Inl e, h1)
                     | Inr a' \<Rightarrow> (Inr (), h1[x := NDArray a'])) \<and>
                  (np_setitem a w = Inr w \<longrightarrow>
                     Transform_apply_inplace np_setitem prim tih d h self x = (Inr (), h1[x := NDArray w]))"
    if arr: "ob = NDArray a" and run: "priv_apply prim d h self x = (Inr v, h1)" for a v h1
  proof -
    from x arr have xa: "lookup h x = Some (NDArray a)"
      by simp
    from priv_apply_array [OF run] xa obtain w where w: "lookup h1 v = Some (NDArray w)"
      by blast
    from frame [OF run xa] have "lookup h1 x = Some (NDArray a)" .
    with w run inplace [OF arr]
    have "Transform_apply_inplace np_setitem prim tih d h self x =
                    (case np_setitem a w of
                       Inl e \<Rightarrow> (Inl e, h1)
                     | Inr a' \<Rightarrow> (Inr (), h1[x := NDArray a']))"
      by (simp add: setitem_ellipsis_def)
    with w show ?thesis
      by auto
  qed
  have err: "Transform_apply_inplace np_setitem prim tih d h self x = (Inl e, h1)"
    if "ob = NDArray a" "priv_apply prim d h self x = (Inl e, h1)" for a e h1
    using that inplace by simp
  from frame ok err show ?thesis
    unfolding eq by blast
qed

theorem apply_without_hook_witness:
  "lookup example_store 0 = Some (NDArray [1, 2]) \<and>
   Transform_apply Translation_prim no_hook (Suc 0) example_store 1 0
     = (Inr 3, example_store @ [NDArray [11, 12]]) \<and>
   lookup (example_store @ [NDArray [11, 12]]) 0 = Some (NDArray [1, 2]) \<and>
   example_setitem [1, 2] [11, 12] = Inr [11, 12] \<and>
   Transform_apply_inplace example_setitem Translation_prim no_hook (Suc 0) example_store 1 0
     = (Inr (), (example_store @ [NDArray [11, 12]])[0 := NDArray [11, 12]]) \<and>
   Transform_apply_inplace example_setitem Translation_prim no_hook 0 example_store 1 0
     = (Inl RecursionError, example_store)"
proof -
  have arr: "lookup example_store 0 = Some (NDArray [1, 2])"
    by (simp add: lookup_def example_store_def)
  have hookless: "\<forall>pc. (NDArray [1, 2] :: (int, int list) obj) \<noteq> PointCloud pc"
    by simp
  have run: "priv_apply Translation_prim (Suc 0) example_store 1 0 = (Inr 3, example_store @ [NDArray [11, 12]])"
    by (simp add: lookup_def Translation_prim_def Translation_def example_store_def)
  have res: "lookup (example_store @ [NDArray [11, 12]]) 3 = Some (NDArray [11, 12])"
    by (simp add: lookup_def example_store_def)
  have deep: "priv_apply Translation_prim 0 example_store 1 0 = (Inl RecursionError, example_store)"
    by simp
  have fits: "example_setitem [1, 2] [11, 12] = Inr [11, 12]"
    by (simp add: example_setitem_def)
  note hook = apply_without_hook [OF arr hookless, where prim = Translation_prim and tih = no_hook
      and d = "Suc 0" and self = 1 and np_setitem = example_setitem]
  note hook0 = apply_without_hook [OF arr hookless, where prim = Translation_prim and tih = no_hook
      and d = 0 and self = 1 and np_setitem = example_setitem]
  from hook run have app: "Transform_apply Translation_prim no_hook (Suc 0) example_store 1 0
     = (Inr 3, example_store @ [NDArray [11, 12]])"
    by (simp only:)
  have kept: "lookup (example_store @ [NDArray [11, 12]]) 0 = Some (NDArray [1, 2])"
    by (rule hook [THEN conjunct2, THEN conjunct1, rule_format, OF conjI [OF app arr]])
  note stored = hook [THEN conjunct2, THEN conjunct2, THEN conjunct1, rule_format, OF conjI [OF refl run]]
  from stored obtain w where w: "lookup (example_store @ [NDArray [11, 12]]) 3 = Some (NDArray w)"
    and fit: "example_setitem [1, 2] w = Inr w \<longrightarrow>
         Transform_apply_inplace example_setitem Translation_prim no_hook (Suc 0) example_store 1 0
           = (Inr (), (example_store @ [NDArray [11, 12]])[0 := NDArray w])"
    by blast
  from w res have "w = [11, 12]"
    by simp
  with fit fits have inpl: "Transform_apply_inplace example_setitem Translation_prim no_hook (Suc 0) example_store 1 0
     = (Inr (), (example_store @ [NDArray [11, 12]])[0 := NDArray [11, 12]])"
    by simp
  have "Transform_apply_inplace example_setitem Translation_prim no_hook 0 example_store 1 0
     = (Inl RecursionError, example_store)"
    by (rule hook0 [THEN conjunct2, THEN conjunct2, THEN conjunct2, rule_format, OF conjI [OF refl deep]])
  with arr app kept fits inpl show ?thesis
    by blast
qed

text \<open>
  The in-place application does not overwrite \<open>x\<close> with every result: a primitive
  that adds a coordinate returns three numbers for the array \<open>[1, 2]\<close>, numpy cannot
  broadcast them into two, and \<^verbatim>\<open>apply_inplace\<close> raises \<^verbatim>\<open>ValueError\<close> with \<open>x\<close>
  unchanged.
\<close>

theorem apply_inplace_shape_counterexample:
  "lookup embedding_store 0 = Some (NDArray [1, 2]) \<and>
   priv_apply Embedding_prim (Suc 0) embedding_store 1 0
     = (Inr 2, embedding_store @ [NDArray [1, 2, 0]]) \<and>
   Transform_apply_inplace example_setitem Embedding_prim no_hook (Suc 0) embedding_store 1 0
     = (Inl ValueError, embedding_store @ [NDArray [1, 2, 0]]) \<and>
   lookup (embedding_store @ [NDArray [1, 2, 0]]) 0 = Some (NDArray [1, 2])"
  by (simp add: Transform_apply_inplace_def call_priv_transform_inplace_def setitem_ellipsis_def
        lookup_def embedding_store_def Embedding_prim_def Embedding_def example_setitem_def)

text \<open>
  C5. For a ComposableTransform \<open>a\<close> with \<open>cs = a.composes_inplace_with\<close>: when \<open>t\<close> is
  an instance of \<open>cs\<close>, \<^verbatim>\<open>compose_before\<close> and \<^verbatim>\<open>compose_after\<close> deep-copy \<open>a\<close>,
  run the in-place composition on the copy and return the copy. The deep copy is a
  new object for \<open>a\<close> and one for every object reachable from it: \<open>copy\<close> maps the
  copied objects \<open>R\<close> one-to-one to new cells, the copy of a chain lists the copies of
  its members, the copy of an instance has the copies of its source and target, and
  arrays and point clouds keep their contents. For a chain \<open>a\<close> the result is the
  copied chain with \<open>t\<close> itself appended, respectively prepended. When \<open>t\<close> is not an
  instance of \<open>cs\<close> they return a new \<open>TransformChain([a, t])\<close>, respectively
  \<open>TransformChain([t, a])\<close>. In both cases every object that existed before the call,
  \<open>a\<close> and \<open>t\<close> among them, is unchanged after it.
\<close>

theorem native_composition_or_chain:
  assumes a: "lookup h a = Some ob" and cs: "composes_inplace_with ob = Inr cs"
  shows "(isinstance h t cs \<longrightarrow>
            (\<exists>new_transform h1 copy R.
               deepcopy h a = (new_transform, h1) \<and> new_transform = length h \<and>
               new_transform = copy a \<and> a \<in> R \<and> inj_on copy R \<and>
               (\<forall>r\<in>R. r < length h \<and> length h \<le> copy r \<and>
                  (\<forall>transforms. lookup h r = Some (TransformChain transforms) \<longrightarrow>
                     lookup h1 (copy r) = Some (TransformChain (map copy transforms)) \<and>
                     (\<forall>m\<in>set transforms. m < length h \<longrightarrow> m \<in> R)) \<and>
                  (\<forall>i. lookup h r = Some (Instance i) \<longrightarrow>
                     lookup h1 (copy r) =
                       Some (Instance (i\<lparr>source_attr := map_option copy (source_attr i),
                                         target_attr := map_option copy (target_attr i)\<rparr>)) \<and>
                     (\<forall>s. (source_attr i = Some s \<or> target_attr i = Some s) \<and> s < length h \<longrightarrow> s \<in> R)) \<and>
                  (\<forall>v. lookup h r = Some (NDArray v) \<longrightarrow> lookup h1 (copy r) = Some (NDArray v)) \<and>
                  (\<forall>pc. lookup h r = Some (PointCloud pc) \<longrightarrow> lookup h1 (copy r) = Some (PointCloud pc))) \<and>
               ComposableTransform_compose_before cbi h a t =
                 (case priv_compose_before_inplace cbi h1 new_transform t of
                    (Inl e, h2) \<Rightarrow> (Inl e, h2)
                  | (Inr _, h2) \<Rightarrow> (Inr new_transform, h2)) \<and>
               ComposableTransform_compose_after cai h a t =
                 (case priv_compose_after_inplace cai h1 new_transform t of
                    (Inl e, h2) \<Rightarrow> (Inl e, h2)
                  | (Inr _, h2) \<Rightarrow> (Inr new_transform, h2)) \<and>
               (\<forall>transforms. ob = TransformChain transforms \<longrightarrow>
                  ComposableTransform_compose_before cbi h a t =
                    (Inr new_transform, h1[new_transform := TransformChain (map copy transforms @ [t])]) \<and>
                  ComposableTransform_compose_after cai h a t =
                    (Inr new_transform, h1[new_transform := TransformChain (t # map copy transforms)])))) \<and>
         (\<not> isinstance h t cs \<longrightarrow>
            ComposableTransform_compose_before cbi h a t = (Inr (length h), h @ [TransformChain [a, t]]) \<and>
            ComposableTransform_compose_after cai h a t = (Inr (length h), h @ [TransformChain [t, a]])) \<and>
         (\<forall>res h' r kept.
            (ComposableTransform_compose_before cbi h a t = (res, h') \<or>
             ComposableTransform_compose_after cai h a t = (res, h')) \<and> lookup h r = Some kept
            \<longrightarrow> lookup h' r = Some kept)"
proof -
  obtain new_transform h1 where copy: "deepcopy h a = (new_transform, h1)"
    by (cases "deepcopy h a")
  from deepcopy_fresh [OF a copy] obtain ext where new: "new_transform = length h"
    and h1: "h1 = h @ ext"
    by blast
  from deepcopy_isomorphic [OF a copy] obtain cp R where cpa: "new_transform = cp a" and aR: "a \<in> R"
    and inj: "inj_on cp R"
    and cells: "\<forall>r\<in>R. r < length h \<and> length h \<le> cp r \<and>
                  lookup h1 (cp r) = Some (map_refs cp (h ! r)) \<and>
                  (\<forall>s\<in>set (refs_of (h ! r)). s < length h \<longrightarrow> s \<in> R)"
    by blast
  have explicit: "r < length h \<and> length h \<le> cp r \<and>
                  (\<forall>transforms. lookup h r = Some (TransformChain transforms) \<longrightarrow>
                     lookup h1 (cp r) = Some (TransformChain (map cp transforms)) \<and>
                     (\<forall>m\<in>set transforms. m < length h \<longrightarrow> m \<in> R)) \<and>
                  (\<forall>i. lookup h r = Some (Instance i) \<longrightarrow>
                     lookup h1 (cp r) =
                       Some (Instance (i\<lparr>source_attr := map_option cp (source_attr i),
                                         target_attr := map_option cp (target_attr i)\<rparr>)) \<and>
                     (\<forall>s. (source_attr i = Some s \<or> target_attr i = Some s) \<and> s < length h \<longrightarrow> s \<in> R)) \<and>
                  (\<forall>v. lookup h r = Some (NDArray v) \<longrightarrow> lookup h1 (cp r) = Some (NDArray v)) \<and>
                  (\<forall>pc. lookup h r = Some (PointCloud pc) \<longrightarrow> lookup h1 (cp r) = Some (PointCloud pc))"
    if rR: "r \<in> R" for r
  proof -
    from cells rR have lt: "r < length h" and fresh: "length h \<le> cp r"
      and cell: "lookup h1 (cp r) = Some (map_refs cp (h ! r))"
      and closed: "\<forall>s\<in>set (refs_of (h ! r)). s < length h \<longrightarrow> s \<in> R"
      by blast+
    have at: "lookup h r = Some o' \<Longrightarrow> h ! r = o'" for o'
      by (simp add: lookup_def split: if_splits)
    have chain: "lookup h1 (cp r) = Some (TransformChain (map cp transforms)) \<and>
                 (\<forall>m\<in>set transforms. m < length h \<longrightarrow> m \<in> R)"
      if "lookup h r = Some (TransformChain transforms)" for transforms
      using at [OF that] cell closed by simp
    have instance_cell: "lookup h1 (cp r) =
                       Some (Instance (i\<lparr>source_attr := map_option cp (source_attr i),
                                         target_attr := map_option cp (target_attr i)\<rparr>)) \<and>
                     (\<forall>s. (source_attr i = Some s \<or> target_attr i = Some s) \<and> s < length h \<longrightarrow> s \<in> R)"
      if "lookup h r = Some (Instance i)" for i
      using at [OF that] cell closed by (auto split: option.splits)
    have array: "lookup h1 (cp r) = Some (NDArray v)" if "lookup h r = Some (NDArray v)" for v
      using at [OF that] cell by simp
    have cloud: "lookup h1 (cp r) = Some (PointCloud pc)" if "lookup h r = Some (PointCloud pc)" for pc
      using at [OF that] cell by simp
    from lt fresh chain instance_cell array cloud show ?thesis
      by blast
  qed
  have before_native: "ComposableTransform_compose_before cbi h a t =
                 (case priv_compose_before_inplace cbi h1 new_transform t of
                    (Inl e, h2) \<Rightarrow> (Inl e, h2)
                  | (Inr _, h2) \<Rightarrow> (Inr new_transform, h2))" if "isinstance h t cs"
    using that a cs copy
    by (simp add: ComposableTransform_compose_before_def ComposableTransform_priv_compose_before_def)
  have after_native: "ComposableTransform_compose_after cai h a t =
                 (case priv_compose_after_inplace cai h1 new_transform t of
                    (Inl e, h2) \<Rightarrow> (Inl e, h2)
                  | (Inr _, h2) \<Rightarrow> (Inr new_transform, h2))" if "isinstance h t cs"
    using that a cs copy
    by (simp add: ComposableTransform_compose_after_def ComposableTransform_priv_compose_after_def)
  have on_chain: "ComposableTransform_compose_before cbi h a t =
                    (Inr new_transform, h1[new_transform := TransformChain (map cp transforms @ [t])]) \<and>
                  ComposableTransform_compose_after cai h a t =
                    (Inr new_transform, h1[new_transform := TransformChain (t # map cp transforms)])"
    if gate: "isinstance h t cs" and ob: "ob = TransformChain transforms" for transforms
  proof -
    from explicit [OF aR] a ob cpa
    have "lookup h1 new_transform = Some (TransformChain (map cp transforms))"
      by simp
    then show ?thesis
      by (simp add: before_native [OF gate] after_native [OF gate]
            priv_compose_before_inplace_def priv_compose_after_inplace_def)
  qed
  have before_chain: "ComposableTransform_compose_before cbi h a t = (Inr (length h), h @ [TransformChain [a, t]])"
    if "\<not> isinstance h t cs"
    using that a cs
    by (simp add: ComposableTransform_compose_before_def Transform_compose_before_def
          TransformChain_init_def alloc_def)
  have after_chain: "ComposableTransform_compose_after cai h a t = (Inr (length h), h @ [TransformChain [t, a]])"
    if "\<not> isinstance h t cs"
    using that a cs
    by (simp add: ComposableTransform_compose_after_def Transform_compose_after_def
          TransformChain_init_def alloc_def)
  have old_in_copy: "lookup h1 r = Some kept" if "lookup h r = Some kept" for r kept
    using that by (simp add: h1 lookup_append_old)
  have frame_before: "lookup h' r = Some kept"
    if run: "ComposableTransform_compose_before cbi h a t = (res, h')" and r: "lookup h r = Some kept"
    for res h' r kept
  proof (cases "isinstance h t cs")
    case True
    obtain res2 h2 where inpl: "priv_compose_before_inplace cbi h1 new_transform t = (res2, h2)"
      by (cases "priv_compose_before_inplace cbi h1 new_transform t")
    with before_native [OF True] run have "h' = h2"
      by (cases res2) auto
    moreover from r have "r \<noteq> new_transform"
      using lookup_Some_less [OF r] new by simp
    ultimately show ?thesis
      using priv_compose_before_inplace_frame [OF inpl] old_in_copy [OF r] by simp
  next
    case False
    with before_chain run r show ?thesis
      by (auto simp: lookup_append_old)
  qed
  have frame_after: "lookup h' r = Some kept"
    if run: "ComposableTransform_compose_after cai h a t = (res, h')" and r: "lookup h r = Some kept"
    for res h' r kept
  proof (cases "isinstance h t cs")
    case True
    obtain res2 h2 where inpl: "priv_compose_after_inplace cai h1 new_transform t = (res2, h2)"
      by (cases "priv_compose_after_inplace cai h1 new_transform t")
    with after_native [OF True] run have "h' = h2"
      by (cases res2) auto
    moreover from r have "r \<noteq> new_transform"
      using lookup_Some_less [OF r] new by simp
    ultimately show ?thesis
      using priv_compose_after_inplace_frame [OF inpl] old_in_copy [OF r] by simp
  next
    case False
    with after_chain run r show ?thesis
      by (auto simp: lookup_append_old)
  qed
  have native: "\<exists>new_transform h1 copy R.
               deepcopy h a = (new_transform, h1) \<and> new_transform = length h \<and>
               new_transform = copy a \<and> a \<in> R \<and> inj_on copy R \<and>
               (\<forall>r\<in>R. r < length h \<and> length h \<le> copy r \<and>
                  (\<forall>transforms. lookup h r = Some (TransformChain transforms) \<longrightarrow>
                     lookup h1 (copy r) = Some (TransformChain (map copy transforms)) \<and>
                     (\<forall>m\<in>set transforms. m < length h \<longrightarrow> m \<in> R)) \<and>
                  (\<forall>i. lookup h r = Some (Instance i) \<longrightarrow>
                     lookup h1 (copy r) =
                       Some (Instance (i\<lparr>source_attr := map_option copy (source_attr i),
                                         target_attr := map_option copy (target_attr i)\<rparr>)) \<and>
                     (\<forall>s. (source_attr i = Some s \<or> target_attr i = Some s) \<and> s < length h \<longrightarrow> s \<in> R)) \<and>
                  (\<forall>v. lookup h r = Some (NDArray v) \<longrightarrow> lookup h1 (copy r) = Some (NDArray v)) \<and>
                  (\<forall>pc. lookup h r = Some (PointCloud pc) \<longrightarrow> lookup h1 (copy r) = Some (PointCloud pc))) \<and>
               ComposableTransform_compose_before cbi h a t =
                 (case priv_compose_before_inplace cbi h1 new_transform t of
                    (Inl e, h2) \<Rightarrow> (Inl e, h2)
                  | (Inr _, h2) \<Rightarrow> (Inr new_transform, h2)) \<and>
               ComposableTransform_compose_after cai h a t =
                 (case priv_compose_after_inplace cai h1 new_transform t of
                    (Inl e, h2) \<Rightarrow> (Inl e, h2)
                  | (Inr _, h2) \<Rightarrow> (Inr new_transform, h2)) \<and>
               (\<forall>transforms. ob = TransformChain transforms \<longrightarrow>
                  ComposableTransform_compose_before cbi h a t =
                    (Inr new_transform, h1[new_transform := TransformChain (map copy transforms @ [t])]) \<and>
                  ComposableTransform_compose_after cai h a t =
                    (Inr new_transform, h1[new_transform := TransformChain (t # map copy transforms)]))"
    if gate: "isinstance h t cs"
  proof (intro exI conjI)
    show "deepcopy h a = (new_transform, h1)" by (rule copy)
    show "new_transform = length h" by (rule new)
    show "new_transform = cp a" by (rule cpa)
    show "a \<in> R" by (rule aR)
    show "inj_on cp R" by (rule inj)
    show "\<forall>r\<in>R. r < length h \<and> length h \<le> cp r \<and>
                  (\<forall>transforms. lookup h r = Some (TransformChain transforms) \<longrightarrow>
                     lookup h1 (cp r) = Some (TransformChain (map cp transforms)) \<and>
                     (\<forall>m\<in>set transforms. m < length h \<longrightarrow> m \<in> R)) \<and>
                  (\<forall>i. lookup h r = Some (Instance i) \<longrightarrow>
                     lookup h1 (cp r) =
                       Some (Instance (i\<lparr>source_attr := map_option cp (source_attr i),
                                         target_attr := map_option cp (target_attr i)\<rparr>)) \<and>
                     (\<forall>s. (source_attr i = Some s \<or> target_attr i = Some s) \<and> s < length h \<longrightarrow> s \<in> R)) \<and>
                  (\<forall>v. lookup h r = Some (NDArray v) \<longrightarrow> lookup h1 (cp r) = Some (NDArray v)) \<and>
                  (\<forall>pc. lookup h r = Some (PointCloud pc) \<longrightarrow> lookup h1 (cp r) = Some (PointCloud pc))"
      using explicit by (intro ballI)
    show "ComposableTransform_compose_before cbi h a t =
                 (case priv_compose_before_inplace cbi h1 new_transform t of
                    (Inl e, h2) \<Rightarrow> (Inl e, h2)
                  | (Inr _, h2) \<Rightarrow> (Inr new_transform, h2))"
      by (rule before_native [OF gate])
    show "ComposableTransform_compose_after cai h a t =
                 (case priv_compose_after_inplace cai h1 new_transform t of
                    (Inl e, h2) \<Rightarrow> (Inl e, h2)
                  | (Inr _, h2) \<Rightarrow> (Inr new_transform, h2))"
      by (rule after_native [OF gate])
    show "\<forall>transforms. ob = TransformChain transforms \<longrightarrow>
                  ComposableTransform_compose_before cbi h a t =
                    (Inr new_transform, h1[new_transform := TransformChain (map cp transforms @ [t])]) \<and>
                  ComposableTransform_compose_after cai h a t =
                    (Inr new_transform, h1[new_transform := TransformChain (t # map cp transforms)])"
      using on_chain [OF gate] by (intro allI impI)
  qed
  show ?thesis
  proof (intro conjI impI allI)
    assume "isinstance h t cs"
    then show "\<exists>new_transform h1 copy R.
               deepcopy h a = (new_transform, h1) \<and> new_transform = length h \<and>
               new_transform = copy a \<and> a \<in> R \<and> inj_on copy R \<and>
               (\<forall>r\<in>R. r < length h \<and> length h \<le> copy r \<and>
                  (\<forall>transforms. lookup h r = Some (TransformChain transforms) \<longrightarrow>
                     lookup h1 (copy r) = Some (TransformChain (map copy transforms)) \<and>
                     (\<forall>m\<in>set transforms. m < length h \<longrightarrow> m \<in> R)) \<and>
                  (\<forall>i. lookup h r = Some (Instance i) \<longrightarrow>
                     lookup h1 (copy r) =
                       Some (Instance (i\<lparr>source_attr := map_option copy (source_attr i),
                                         target_attr := map_option copy (target_attr i)\<rparr>)) \<and>
                     (\<forall>s. (source_attr i = Some s \<or> target_attr i = Some s) \<and> s < length h \<longrightarrow> s \<in> R)) \<and>
                  (\<forall>v. lookup h r = Some (NDArray v) \<longrightarrow> lookup h1 (copy r) = Some (NDArray v)) \<and>
                  (\<forall>pc. lookup h r = Some (PointCloud pc) \<longrightarrow> lookup h1 (copy r) = Some (PointCloud pc))) \<and>
               ComposableTransform_compose_before cbi h a t =
                 (case priv_compose_before_inplace cbi h1 new_transform t of
                    (Inl e, h2) \<Rightarrow> (Inl e, h2)
                  | (Inr _, h2) \<Rightarrow> (Inr new_transform, h2)) \<and>
               ComposableTransform_compose_after cai h a t =
                 (case priv_compose_after_inplace cai h1 new_transform t of
                    (Inl e, h2) \<Rightarrow> (Inl e, h2)
                  | (Inr _, h2) \<Rightarrow> (Inr new_transform, h2)) \<and>
               (\<forall>transforms. ob = TransformChain transforms \<longrightarrow>
                  ComposableTransform_compose_before cbi h a t =
                    (Inr new_transform, h1[new_transform := TransformChain (map copy transforms @ [t])]) \<and>
                  ComposableTransform_compose_after cai h a t =
                    (Inr new_transform, h1[new_transform := TransformChain (t # map copy transforms)]))"
      by (rule native)
  next
    assume "\<not> isinstance h t cs"
    then show "ComposableTransform_compose_before cbi h a t = (Inr (length h), h @ [TransformChain [a, t]])"
      by (rule before_chain)
  next
    assume "\<not> isinstance h t cs"
    then show "ComposableTransform_compose_after cai h a t = (Inr (length h), h @ [TransformChain [t, a]])"
      by (rule after_chain)
  next
    fix res h' r kept
    assume "(ComposableTransform_compose_before cbi h a t = (res, h') \<or>
             ComposableTransform_compose_after cai h a t = (res, h')) \<and> lookup h r = Some kept"
    then show "lookup h' r = Some kept"
      using frame_before frame_after by blast
  qed
qed

theorem native_composition_or_chain_witness:
  "lookup chain_store 3 = Some (TransformChain [1, 2]) \<and>
   composes_inplace_with (TransformChain [1, 2] :: (int, int list) obj) = Inr [''Transform''] \<and>
   isinstance chain_store 2 [''Transform''] \<and>
   deepcopy chain_store 3
     = (4, chain_store @ [TransformChain [5, 6], Instance (Translation 10), Instance (Translation 5)]) \<and>
   ComposableTransform_compose_before Translation_compose chain_store 3 2
     = (Inr 4, chain_store @ [TransformChain [5, 6, 2], Instance (Translation 10), Instance (Translation 5)]) \<and>
   ComposableTransform_compose_after Translation_compose chain_store 3 2
     = (Inr 4, chain_store @ [TransformChain [2, 5, 6], Instance (Translation 10), Instance (Translation 5)]) \<and>
   lookup (chain_store @ [TransformChain [5, 6, 2], Instance (Translation 10), Instance (Translation 5)]) 3
     = Some (TransformChain [1, 2]) \<and>
   lookup (chain_store @ [TransformChain [5, 6, 2], Instance (Translation 10), Instance (Translation 5)]) 1
     = Some (Instance (Translation 10)) \<and>
   \<not> isinstance chain_store 0 [''Transform''] \<and>
   ComposableTransform_compose_before Translation_compose chain_store 3 0
     = (Inr 4, chain_store @ [TransformChain [3, 0]]) \<and>
   ComposableTransform_compose_after Translation_compose chain_store 3 0
     = (Inr 4, chain_store @ [TransformChain [0, 3]]) \<and>
   lookup chain_store 1 = Some (Instance (Translation 10)) \<and>
   composes_inplace_with (Instance (Translation 10) :: (int, int list) obj) = Inr [''Translation''] \<and>
   isinstance chain_store 2 [''Translation''] \<and>
   ComposableTransform_compose_before Translation_compose chain_store 1 2
     = (Inr 4, chain_store @ [Instance (Translation 15)]) \<and>
   ComposableTransform_compose_after Translation_compose chain_store 1 2
     = (Inr 4, chain_store @ [Instance (Translation 15)]) \<and>
   lookup (chain_store @ [Instance (Translation 15)]) 1 = Some (Instance (Translation 10))"
proof -
  let ?h1 = "chain_store @ [TransformChain [5, 6], Instance (Translation 10), Instance (Translation 5)]"
  have a: "lookup chain_store 3 = Some (TransformChain [1, 2])"
    by (simp add: lookup_def chain_store_def example_store_def)
  have m: "lookup chain_store 1 = Some (Instance (Translation 10))"
    by (simp add: lookup_def chain_store_def example_store_def)
  have cs: "composes_inplace_with (TransformChain [1, 2] :: (int, int list) obj) = Inr [''Transform'']"
    by simp
  have yes: "isinstance chain_store 2 [''Transform'']"
    by (simp add: isinstance_def lookup_def chain_store_def example_store_def Translation_def)
  have no: "\<not> isinstance chain_store 0 [''Transform'']"
    by (simp add: isinstance_def lookup_def chain_store_def example_store_def)
  have len: "length chain_store = 4"
    by (simp add: chain_store_def example_store_def)
  have copy: "deepcopy chain_store 3 = (4, ?h1)"
    by (simp add: deepcopy_def chain_store_def example_store_def Translation_def)
  have cell: "lookup ?h1 4 = Some (TransformChain [5, 6])"
    by (simp add: lookup_def chain_store_def example_store_def)
  have upd: "?h1[4 := TransformChain ([5, 6] @ [2])]
               = chain_store @ [TransformChain [5, 6, 2], Instance (Translation 10), Instance (Translation 5)]"
    "?h1[4 := TransformChain (2 # [5, 6])]
               = chain_store @ [TransformChain [2, 5, 6], Instance (Translation 10), Instance (Translation 5)]"
    by (simp_all add: chain_store_def example_store_def)
  note native = native_composition_or_chain [OF a cs, where t = 2 and cbi = Translation_compose
      and cai = Translation_compose]
  note chain = native_composition_or_chain [OF a cs, where t = 0 and cbi = Translation_compose
      and cai = Translation_compose]
  from native [THEN conjunct1, THEN mp, OF yes]
  obtain new_transform h1 cp R where dc: "deepcopy chain_store 3 = (new_transform, h1)"
    and cpa: "new_transform = cp 3" and aR: "3 \<in> R"
    and cells: "\<forall>r\<in>R. r < length chain_store \<and> length chain_store \<le> cp r \<and>
                  (\<forall>transforms. lookup chain_store r = Some (TransformChain transforms) \<longrightarrow>
                     lookup h1 (cp r) = Some (TransformChain (map cp transforms)) \<and>
                     (\<forall>m\<in>set transforms. m < length chain_store \<longrightarrow> m \<in> R)) \<and>
                  (\<forall>i. lookup chain_store r = Some (Instance i) \<longrightarrow>
                     lookup h1 (cp r) =
                       Some (Instance (i\<lparr>source_attr := map_option cp (source_attr i),
                                         target_attr := map_option cp (target_attr i)\<rparr>)) \<and>
                     (\<forall>s. (source_attr i = Some s \<or> target_attr i = Some s) \<and> s < length chain_store \<longrightarrow> s \<in> R)) \<and>
                  (\<forall>v. lookup chain_store r = Some (NDArray v) \<longrightarrow> lookup h1 (cp r) = Some (NDArray v)) \<and>
                  (\<forall>pc. lookup chain_store r = Some (PointCloud pc) \<longrightarrow> lookup h1 (cp r) = Some (PointCloud pc))"
    and on_chain: "\<forall>transforms. (TransformChain [1, 2] :: (int, int list) obj) = TransformChain transforms \<longrightarrow>
                  ComposableTransform_compose_before Translation_compose chain_store 3 2 =
                    (Inr new_transform, h1[new_transform := TransformChain (map cp transforms @ [2])]) \<and>
                  ComposableTransform_compose_after Translation_compose chain_store 3 2 =
                    (Inr new_transform, h1[new_transform := TransformChain (2 # map cp transforms)])"
    by (elim exE conjE) (rule that)
  from dc copy have nt: "new_transform = 4" and h1: "h1 = ?h1"
    by simp_all
  from cells [rule_format, OF aR, THEN conjunct2, THEN conjunct2, THEN conjunct1, rule_format, OF a,
      THEN conjunct1]
  have "lookup ?h1 4 = Some (TransformChain (map cp [1, 2]))"
    by (simp only: h1 cpa [symmetric] nt)
  with cell have members: "map cp [1, 2] = [5, 6]"
    by (simp only: option.inject obj.inject)
  from on_chain [rule_format, OF refl]
  have run: "ComposableTransform_compose_before Translation_compose chain_store 3 2
       = (Inr 4, chain_store @ [TransformChain [5, 6, 2], Instance (Translation 10), Instance (Translation 5)])"
    "ComposableTransform_compose_after Translation_compose chain_store 3 2
       = (Inr 4, chain_store @ [TransformChain [2, 5, 6], Instance (Translation 10), Instance (Translation 5)])"
    by (simp_all only: nt h1 members upd)
  from native [THEN conjunct2, THEN conjunct2, rule_format, OF conjI [OF disjI1 [OF run(1)] a]]
  have kept1: "lookup (chain_store @ [TransformChain [5, 6, 2], Instance (Translation 10), Instance (Translation 5)]) 3
     = Some (TransformChain [1, 2])" .
  from native [THEN conjunct2, THEN conjunct2, rule_format, OF conjI [OF disjI1 [OF run(1)] m]]
  have kept2: "lookup (chain_store @ [TransformChain [5, 6, 2], Instance (Translation 10), Instance (Translation 5)]) 1
     = Some (Instance (Translation 10))" .
  from chain [THEN conjunct2, THEN conjunct1, THEN mp, OF no]
  have fallback: "ComposableTransform_compose_before Translation_compose chain_store 3 0
       = (Inr 4, chain_store @ [TransformChain [3, 0]])"
    "ComposableTransform_compose_after Translation_compose chain_store 3 0
       = (Inr 4, chain_store @ [TransformChain [0, 3]])"
    by (simp_all only: len)
  have ics: "composes_inplace_with (Instance (Translation 10) :: (int, int list) obj) = Inr [''Translation'']"
    by (simp add: Translation_def)
  have iyes: "isinstance chain_store 2 [''Translation'']"
    by (simp add: isinstance_def lookup_def chain_store_def example_store_def Translation_def)
  have icopy: "deepcopy chain_store 1 = (4, chain_store @ [Instance (Translation 10)])"
    by (simp add: deepcopy_def chain_store_def example_store_def Translation_def)
  have inpl: "priv_compose_before_inplace Translation_compose (chain_store @ [Instance (Translation 10)]) 4 2
      = (Inr (), chain_store @ [Instance (Translation 15)])"
    "priv_compose_after_inplace Translation_compose (chain_store @ [Instance (Translation 10)]) 4 2
      = (Inr (), chain_store @ [Instance (Translation 15)])"
    by (simp_all add: priv_compose_before_inplace_def priv_compose_after_inplace_def lookup_def
          chain_store_def example_store_def Translation_compose_def Translation_def)
  note on_instance = native_composition_or_chain [OF m ics, where t = 2 and cbi = Translation_compose
      and cai = Translation_compose]
  from on_instance [THEN conjunct1, THEN mp, OF iyes]
  obtain new_instance h1i where idc: "deepcopy chain_store 1 = (new_instance, h1i)"
    and ibefore: "ComposableTransform_compose_before Translation_compose chain_store 1 2 =
                 (case priv_compose_before_inplace Translation_compose h1i new_instance 2 of
                    (Inl e, h2) \<Rightarrow> (Inl e, h2)
                  | (Inr _, h2) \<Rightarrow> (Inr new_instance, h2))"
    and iafter: "ComposableTransform_compose_after Translation_compose chain_store 1 2 =
                 (case priv_compose_after_inplace Translation_compose h1i new_instance 2 of
                    (Inl e, h2) \<Rightarrow> (Inl e, h2)
                  | (Inr _, h2) \<Rightarrow> (Inr new_instance, h2))"
    by (elim exE conjE) (rule that)
  from idc icopy have ni: "new_instance = 4" and h1i: "h1i = chain_store @ [Instance (Translation 10)]"
    by simp_all
  from ibefore iafter
  have irun: "ComposableTransform_compose_before Translation_compose chain_store 1 2
       = (Inr 4, chain_store @ [Instance (Translation 15)])"
    "ComposableTransform_compose_after Translation_compose chain_store 1 2
       = (Inr 4, chain_store @ [Instance (Translation 15)])"
    by (simp_all only: ni h1i inpl prod.case sum.case)
  from on_instance [THEN conjunct2, THEN conjunct2, rule_format, OF conjI [OF disjI1 [OF irun(1)] m]]
  have ikept: "lookup (chain_store @ [Instance (Translation 15)]) 1 = Some (Instance (Translation 10))" .
  from a cs yes copy run kept1 kept2 no fallback m ics iyes irun ikept show ?thesis
    by (intro conjI)
qed

end
